theory Spec2Isabelle
  imports Main "HOL-Library.AList"
begin

section \<open>Constants of generate\_map.py\<close>

definition BASE_URL :: string where
  "BASE_URL = ''https://infocar.dgt.es/datex2/v3/dgt/zbe/ControledZonePublication/''"

definition OUTPUT_DIR :: string where
  "OUTPUT_DIR = ''data''"

definition GEOJSON_FILE :: string where
  "GEOJSON_FILE = ''low_emission_zones.geojson''"

section \<open>Exceptions\<close>

text \<open>
  The exceptions the script can meet, all subclasses of Python's \<open>Exception\<close>
  (an interrupt of the process is outside the model). \<open>HTTPError\<close>, raised by
  \<open>raise_for_status\<close>, is a subclass of \<open>RequestException\<close>; the others are
  unrelated to it.
\<close>

datatype exn =
    RequestException
  | HTTPError
  | ParseError
  | AttributeError
  | TypeError
  | ValueError
  | IsADirectoryError
  | NotADirectoryError
  | FileNotFoundError
  | OtherException

fun isinstance_RequestException :: "exn \<Rightarrow> bool" where
  "isinstance_RequestException RequestException = True"
| "isinstance_RequestException HTTPError = True"
| "isinstance_RequestException _ = False"

section \<open>ElementTree documents\<close>

text \<open>
  An element of \<open>xml.etree.ElementTree\<close>: its tag in Clark notation
  (\<open>{uri}local\<close>), its \<open>text\<close> attribute (\<open>None\<close> when the element has
  no text before its first child) and its children in document order.
\<close>

datatype element = Element (tag_of: string) (text_of: "string option") (children_of: "element list")

text \<open>The namespace table \<open>ns\<close> of the script, one constant for each prefix.\<close>

definition conz :: string where
  "conz = ''http://levelC/schema/3/controlledZone''"

definition com :: string where
  "com = ''http://levelC/schema/3/common''"

definition tra :: string where
  "tra = ''http://levelC/schema/3/trafficRegulation''"

definition loc :: string where
  "loc = ''http://levelC/schema/3/locationReferencing''"

text \<open>\<open>prefix:local\<close> under the table is the tag \<open>{uri}local\<close>.\<close>

definition clark :: "string \<Rightarrow> string \<Rightarrow> string" where
  "clark uri local = ''{'' @ uri @ ''}'' @ local"

text \<open>\<open>Element.iter(tag)\<close>: the element itself when its tag matches, then its
  descendants, in document order.\<close>

fun iter :: "string \<Rightarrow> element \<Rightarrow> element list" where
  "iter t (Element g x cs) =
     (if g = t then [Element g x cs] else []) @ concat (map (iter t) cs)"

text \<open>\<open>elem.findall('.//tag')\<close>: every descendant with that tag, the element itself
  excluded, in document order.\<close>

definition findall_descendants :: "string \<Rightarrow> element \<Rightarrow> element list" where
  "findall_descendants t e = concat (map (iter t) (children_of e))"

text \<open>\<open>elem.findall('tag')\<close>: the direct children with that tag.\<close>

definition findall_children :: "string \<Rightarrow> element \<Rightarrow> element list" where
  "findall_children t e = filter (\<lambda>c. tag_of c = t) (children_of e)"

text \<open>\<open>find\<close> returns the first match of the path, or \<open>None\<close>.\<close>

definition first_match :: "element list \<Rightarrow> element option" where
  "first_match es = (case es of [] \<Rightarrow> None | e # _ \<Rightarrow> Some e)"

definition find_child :: "string \<Rightarrow> element \<Rightarrow> element option" where
  "find_child t e = first_match (findall_children t e)"

text \<open>\<open>zone.find('.//conz:name/com:values/com:value')\<close>: the descendants tagged
  \<open>conz:name\<close>, their children tagged \<open>com:values\<close>, the children of those tagged
  \<open>com:value\<close>; the first one.\<close>

definition find_name_value :: "element \<Rightarrow> element option" where
  "find_name_value zone =
     first_match
       (concat (map (findall_children (clark com ''value''))
          (concat (map (findall_children (clark com ''values''))
             (findall_descendants (clark conz ''name'') zone)))))"

section \<open>Floats\<close>

text \<open>
  A Python float: a number of the carrier \<open>'n\<close>, or NaN. The carrier holds the
  values that \<open>==\<close> tells apart (\<open>0.0\<close> and \<open>-0.0\<close> are one number). The
  builtin \<open>float\<close> is a parameter \<open>fl\<close> of the model, a function from the text to
  the float it denotes, \<open>None\<close> where Python raises \<open>ValueError\<close>. Floats
  compare by value and NaN differs from every float, itself included.
\<close>

datatype 'n pyfloat = Val 'n | NaN

fun float_eq :: "'n pyfloat \<Rightarrow> 'n pyfloat \<Rightarrow> bool" where
  "float_eq (Val a) (Val b) = (a = b)"
| "float_eq _ _ = False"

text \<open>\<open>float(elem.text)\<close>: \<open>TypeError\<close> on \<open>None\<close>, \<open>ValueError\<close> on a text
  that is no number.\<close>

definition py_float :: "(string \<Rightarrow> 'n pyfloat option) \<Rightarrow> string option \<Rightarrow> exn + 'n pyfloat" where
  "py_float fl t =
     (case t of
        None \<Rightarrow> Inl TypeError
      | Some s \<Rightarrow> (case fl s of None \<Rightarrow> Inl ValueError | Some v \<Rightarrow> Inr v))"

section \<open>Rings\<close>

text \<open>\<open>coord.find(tag).text\<close>: \<open>AttributeError\<close> when \<open>find\<close> returns
  \<open>None\<close>.\<close>

definition find_text :: "string \<Rightarrow> element \<Rightarrow> exn + string option" where
  "find_text t e =
     (case find_child t e of None \<Rightarrow> Inl AttributeError | Some c \<Rightarrow> Inr (text_of c))"

text \<open>The two assignments of the inner loop's body: \<open>lat\<close>, then \<open>lon\<close>.\<close>

definition lat_lon ::
  "(string \<Rightarrow> 'n pyfloat option) \<Rightarrow> element \<Rightarrow> exn + ('n pyfloat \<times> 'n pyfloat)" where
  "lat_lon fl coord =
     (case find_text (clark loc ''latitude'') coord of
        Inl e \<Rightarrow> Inl e
      | Inr t1 \<Rightarrow>
     (case py_float fl t1 of
        Inl e \<Rightarrow> Inl e
      | Inr lat \<Rightarrow>
     (case find_text (clark loc ''longitude'') coord of
        Inl e \<Rightarrow> Inl e
      | Inr t2 \<Rightarrow>
     (case py_float fl t2 of
        Inl e \<Rightarrow> Inl e
      | Inr lon \<Rightarrow> Inr (lat, lon)))))"

text \<open>The inner loop: \<open>coords.append([lon, lat])\<close> for each coordinate element; an
  exception leaves the loop.\<close>

fun coords_loop ::
  "(string \<Rightarrow> 'n pyfloat option) \<Rightarrow> element list \<Rightarrow> 'n pyfloat list list
     \<Rightarrow> exn + 'n pyfloat list list" where
  "coords_loop fl [] coords = Inr coords"
| "coords_loop fl (coord # rest) coords =
     (case lat_lon fl coord of
        Inl e \<Rightarrow> Inl e
      | Inr (lat, lon) \<Rightarrow> coords_loop fl rest (coords @ [[lon, lat]]))"

text \<open>
  \<open>coords[0] != coords[-1]\<close> on a non-empty list. With one element both sides are the
  same list object, and Python's list comparison skips items that are the same object, so
  the two are equal. With more elements the two lists hold floats of different calls of
  \<open>float\<close>, compared by value.
\<close>

definition first_last_differ :: "'n pyfloat list list \<Rightarrow> bool" where
  "first_last_differ coords =
     (length coords \<noteq> 1 \<and> \<not> list_all2 float_eq (hd coords) (last coords))"

text \<open>The closing step: \<open>if coords and coords[0] != coords[-1]: coords.append(coords[0])\<close>.\<close>

definition close_ring :: "'n pyfloat list list \<Rightarrow> 'n pyfloat list list" where
  "close_ring coords =
     (if coords \<noteq> [] \<and> first_last_differ coords then coords @ [hd coords] else coords)"

text \<open>The body of the loop over the polygon elements: the ring of one polygon.\<close>

definition polygon_coords ::
  "(string \<Rightarrow> 'n pyfloat option) \<Rightarrow> element \<Rightarrow> exn + 'n pyfloat list list" where
  "polygon_coords fl polygon =
     (case coords_loop fl (findall_children (clark loc ''openlrCoordinates'') polygon) [] of
        Inl e \<Rightarrow> Inl e
      | Inr coords \<Rightarrow> Inr (close_ring coords))"

section \<open>Features\<close>

text \<open>
  The dictionaries the script builds, with their fixed keys: the geometry
  (\<open>type\<close>, \<open>coordinates\<close>), the feature (\<open>type\<close>, \<open>properties\<close>,
  \<open>geometry\<close>) and the collection (\<open>type\<close>, \<open>features\<close>). The properties
  are a dictionary from keys to names; a name is \<open>None\<close> or a string.
\<close>

record 'n geometry =
  gtype :: string
  coordinates :: "'n pyfloat list list list list"

record 'n feature =
  ftype :: string
  properties :: "(string \<times> string option) list"
  geometry :: "'n geometry"

record 'n feature_collection =
  ctype :: string
  features :: "'n feature list"

text \<open>\<open>zone_name_elem.text if zone_name_elem is not None else "Unknown Zone"\<close>.\<close>

definition zone_name :: "element \<Rightarrow> string option" where
  "zone_name zone =
     (case find_name_value zone of
        Some zone_name_elem \<Rightarrow> text_of zone_name_elem
      | None \<Rightarrow> Some ''Unknown Zone'')"

text \<open>The loop over the polygon elements of a zone: \<open>polygons.append(coords)\<close>.\<close>

fun polygons_loop ::
  "(string \<Rightarrow> 'n pyfloat option) \<Rightarrow> element list \<Rightarrow> 'n pyfloat list list list
     \<Rightarrow> exn + 'n pyfloat list list list" where
  "polygons_loop fl [] polygons = Inr polygons"
| "polygons_loop fl (polygon # rest) polygons =
     (case polygon_coords fl polygon of
        Inl e \<Rightarrow> Inl e
      | Inr coords \<Rightarrow> polygons_loop fl rest (polygons @ [coords]))"

definition zone_polygons ::
  "(string \<Rightarrow> 'n pyfloat option) \<Rightarrow> element \<Rightarrow> exn + 'n pyfloat list list list" where
  "zone_polygons fl zone =
     polygons_loop fl (findall_descendants (clark loc ''openlrPolygonCorners'') zone) []"

definition make_feature :: "string option \<Rightarrow> 'n pyfloat list list list \<Rightarrow> 'n feature" where
  "make_feature name polygons =
     \<lparr>ftype = ''Feature'',
      properties = [(''name'', name)],
      geometry = \<lparr>gtype = ''MultiPolygon'', coordinates = [polygons]\<rparr>\<rparr>"

text \<open>The body of the loop over the zones: the feature list after the zone, or the
  exception that left the body (the list is then as it was before the zone).\<close>

definition process_zone ::
  "(string \<Rightarrow> 'n pyfloat option) \<Rightarrow> element \<Rightarrow> 'n feature list \<Rightarrow> exn + 'n feature list" where
  "process_zone fl zone geojson_features =
     (case zone_polygons fl zone of
        Inl e \<Rightarrow> Inl e
      | Inr polygons \<Rightarrow>
          Inr (if polygons \<noteq> []
               then geojson_features @ [make_feature (zone_name zone) polygons]
               else geojson_features))"

text \<open>The loop over the zones of one document. An exception stops it; the features
  appended so far stay in the list.\<close>

fun zones_loop ::
  "(string \<Rightarrow> 'n pyfloat option) \<Rightarrow> element list \<Rightarrow> 'n feature list
     \<Rightarrow> 'n feature list \<times> exn option" where
  "zones_loop fl [] geojson_features = (geojson_features, None)"
| "zones_loop fl (zone # rest) geojson_features =
     (case process_zone fl zone geojson_features of
        Inl e \<Rightarrow> (geojson_features, Some e)
      | Inr fs \<Rightarrow> zones_loop fl rest fs)"

section \<open>The network and the libraries\<close>

text \<open>
  A response of \<open>requests\<close>: its status code, its body as bytes and as text.
  \<open>raise_for_status\<close> raises \<open>HTTPError\<close> for a status from 400 to 599.
\<close>

record response =
  status_code :: nat
  content :: string
  body_text :: string

definition raise_for_status :: "response \<Rightarrow> exn option" where
  "raise_for_status r =
     (if 400 \<le> status_code r \<and> status_code r < 600 then Some HTTPError else None)"

text \<open>
  A document of BeautifulSoup: tags with a name, attributes and contents, and strings.
\<close>

datatype html = Tag (name_of: string) (attrs_of: "(string \<times> string) list") (contents_of: "html list")
  | NavigableString string

text \<open>
  What the script calls and does not define: \<open>requests.get\<close> (the network, a function
  of the address: one answer for each address during a run), \<open>ET.fromstring\<close>,
  the builtin \<open>float\<close>, the parser of \<open>BeautifulSoup(text, 'html.parser')\<close>
  (the contents of the soup) and the text \<open>json.dump\<close> writes.
\<close>

record 'n world =
  requests_get :: "string \<Rightarrow> exn + response"
  fromstring :: "string \<Rightarrow> exn + element"
  float_of :: "string \<Rightarrow> 'n pyfloat option"
  html_parser :: "string \<Rightarrow> html list"
  json_dump :: "'n feature_collection \<Rightarrow> string"

section \<open>process\_xml\_to\_geojson\<close>

text \<open>The lines the script prints.\<close>

datatype line =
    Starting
  | Cleaned
  | ErrorList exn
  | Found nat
  | ErrorFetching string exn
  | ErrorParsing string exn
  | UnexpectedError string exn
  | Saved string
  | NoFeatures
  | NoFiles
  | Finished

text \<open>The body of the \<open>try\<close> for one address, on the feature list so far.\<close>

definition try_url ::
  "'n world \<Rightarrow> string \<Rightarrow> 'n feature list \<Rightarrow> 'n feature list \<times> exn option" where
  "try_url w url geojson_features =
     (case requests_get w url of
        Inl e \<Rightarrow> (geojson_features, Some e)
      | Inr response \<Rightarrow>
     (case raise_for_status response of
        Some e \<Rightarrow> (geojson_features, Some e)
      | None \<Rightarrow>
     (case fromstring w (content response) of
        Inl e \<Rightarrow> (geojson_features, Some e)
      | Inr root \<Rightarrow>
          zones_loop (float_of w) (findall_descendants (clark conz ''controlledZone'') root)
            geojson_features)))"

text \<open>The three handlers, in the order of the source; the last one takes every
  exception the first two leave.\<close>

definition handler :: "string \<Rightarrow> exn \<Rightarrow> line" where
  "handler url e =
     (if isinstance_RequestException e then ErrorFetching url e
      else if e = ParseError then ErrorParsing url e
      else UnexpectedError url e)"

text \<open>The loop over the addresses, on the feature list and the printed lines.\<close>

fun urls_loop ::
  "'n world \<Rightarrow> string list \<Rightarrow> 'n feature list \<times> line list \<Rightarrow> 'n feature list \<times> line list" where
  "urls_loop w [] st = st"
| "urls_loop w (url # rest) (geojson_features, out) =
     (case try_url w url geojson_features of
        (fs, None) \<Rightarrow> urls_loop w rest (fs, out)
      | (fs, Some e) \<Rightarrow> urls_loop w rest (fs, out @ [handler url e]))"

definition process_xml_to_geojson ::
  "'n world \<Rightarrow> string list \<Rightarrow> line list \<Rightarrow> 'n feature_collection \<times> line list" where
  "process_xml_to_geojson w xml_urls out =
     (case urls_loop w xml_urls ([], out @ [Found (length xml_urls)]) of
        (geojson_features, out') \<Rightarrow>
          (\<lparr>ctype = ''FeatureCollection'', features = geojson_features\<rparr>, out'))"

section \<open>fetch\_xml\_urls\<close>

text \<open>\<open>find_all(name)\<close>: the tags with that name, in document order.\<close>

fun find_all :: "string \<Rightarrow> html \<Rightarrow> html list" where
  "find_all t (Tag n as cs) = (if n = t then [Tag n as cs] else []) @ concat (map (find_all t) cs)"
| "find_all t (NavigableString s) = []"

text \<open>\<open>s.endswith(suf)\<close>.\<close>

definition endswith :: "string \<Rightarrow> string \<Rightarrow> bool" where
  "endswith s suf = (length suf \<le> length s \<and> drop (length s - length suf) s = suf)"

text \<open>The loop over the links: \<open>link.get('href')\<close> is the attribute or \<open>None\<close>;
  an empty string is false.\<close>

fun links_loop :: "html list \<Rightarrow> string list \<Rightarrow> string list" where
  "links_loop [] xml_urls = xml_urls"
| "links_loop (link # rest) xml_urls =
     (case map_of (attrs_of link) ''href'' of
        None \<Rightarrow> links_loop rest xml_urls
      | Some href \<Rightarrow>
          if href \<noteq> [] \<and> endswith href ''.xml''
          then links_loop rest (xml_urls @ [BASE_URL @ href])
          else links_loop rest xml_urls)"

text \<open>The \<open>except\<close> clause of \<open>fetch_xml_urls\<close>: a \<open>RequestException\<close> is printed
  and the result is the empty list; any other exception leaves the function.\<close>

definition except_RequestException ::
  "exn \<Rightarrow> line list \<Rightarrow> (exn + string list) \<times> line list" where
  "except_RequestException e out =
     (if isinstance_RequestException e then (Inr [], out @ [ErrorList e]) else (Inl e, out))"

definition fetch_xml_urls :: "'n world \<Rightarrow> line list \<Rightarrow> (exn + string list) \<times> line list" where
  "fetch_xml_urls w out =
     (case requests_get w BASE_URL of
        Inl e \<Rightarrow> except_RequestException e out
      | Inr response \<Rightarrow>
     (case raise_for_status response of
        Some e \<Rightarrow> except_RequestException e out
      | None \<Rightarrow>
          (Inr (links_loop (concat (map (find_all ''a'') (html_parser w (body_text response)))) []),
           out)))"

section \<open>The files\<close>

text \<open>
  The file system: the paths that exist, in the order a directory listing gives them,
  each a file with its text or a directory.
\<close>

datatype node = File string | Dir

type_synonym filesystem = "(string \<times> node) list"

text \<open>
  \<open>glob.glob(os.path.join(OUTPUT_DIR, '*.xml'))\<close>: the entries of the directory whose
  name ends in \<open>.xml\<close>; a name that starts with a dot is hidden from \<open>*\<close>.
\<close>

definition glob_match :: "string \<Rightarrow> bool" where
  "glob_match p =
     (let d = OUTPUT_DIR @ ''/''; name = drop (length d) p
      in take (length d) p = d \<and> name \<noteq> [] \<and> hd name \<noteq> CHR ''.''
         \<and> CHR ''/'' \<notin> set name \<and> endswith name ''.xml'')"

definition glob_xml :: "filesystem \<Rightarrow> string list" where
  "glob_xml fs = filter glob_match (map fst fs)"

text \<open>\<open>os.remove\<close> deletes a file and raises on a directory.\<close>

definition os_remove :: "string \<Rightarrow> filesystem \<Rightarrow> exn + filesystem" where
  "os_remove p fs =
     (case map_of fs p of
        None \<Rightarrow> Inl FileNotFoundError
      | Some Dir \<Rightarrow> Inl IsADirectoryError
      | Some (File _) \<Rightarrow> Inr (AList.delete p fs))"

fun remove_loop :: "string list \<Rightarrow> filesystem \<Rightarrow> filesystem \<times> exn option" where
  "remove_loop [] fs = (fs, None)"
| "remove_loop (f # files) fs =
     (case os_remove f fs of
        Inl e \<Rightarrow> (fs, Some e)
      | Inr fs' \<Rightarrow> remove_loop files fs')"

definition clean_old_files ::
  "filesystem \<Rightarrow> line list \<Rightarrow> filesystem \<times> line list \<times> exn option" where
  "clean_old_files fs out =
     (case remove_loop (glob_xml fs) fs of
        (fs', Some e) \<Rightarrow> (fs', out, Some e)
      | (fs', None) \<Rightarrow> (fs', out @ [Cleaned], None))"

definition is_file :: "node option \<Rightarrow> bool" where
  "is_file n = (case n of Some (File _) \<Rightarrow> True | _ \<Rightarrow> False)"

text \<open>
  \<open>save_geojson\<close>: the directory is created when the path does not exist;
  \<open>open(filepath, 'w')\<close> raises when the directory's path is a file or the file's path
  is a directory, and otherwise the file holds what \<open>json.dump\<close> writes.
\<close>

definition save_geojson ::
  "'n world \<Rightarrow> 'n feature_collection \<Rightarrow> string \<Rightarrow> filesystem \<Rightarrow> line list
     \<Rightarrow> filesystem \<times> line list \<times> exn option" where
  "save_geojson w data filename fs out =
     (let fs1 = (if map_of fs OUTPUT_DIR = None then fs @ [(OUTPUT_DIR, Dir)] else fs);
          filepath = OUTPUT_DIR @ ''/'' @ filename
      in if is_file (map_of fs1 OUTPUT_DIR) then (fs1, out, Some NotADirectoryError)
         else if map_of fs1 filepath = Some Dir then (fs1, out, Some IsADirectoryError)
         else (AList.update filepath (File (json_dump w data)) fs1, out @ [Saved filepath], None))"

section \<open>The script\<close>

text \<open>A run: the file system and the printed lines at its end, and the exception that
  ended it, if one did.\<close>

record run =
  final_fs :: filesystem
  printed :: "line list"
  raised :: "exn option"

definition main :: "'n world \<Rightarrow> filesystem \<Rightarrow> run" where
  "main w fs =
     (case clean_old_files fs [Starting] of
        (fs1, out1, Some e) \<Rightarrow> \<lparr>final_fs = fs1, printed = out1, raised = Some e\<rparr>
      | (fs1, out1, None) \<Rightarrow>
     (case fetch_xml_urls w out1 of
        (Inl e, out2) \<Rightarrow> \<lparr>final_fs = fs1, printed = out2, raised = Some e\<rparr>
      | (Inr xml_urls, out2) \<Rightarrow>
          if xml_urls \<noteq> [] then
            (case process_xml_to_geojson w xml_urls out2 of
               (geojson_data, out3) \<Rightarrow>
                 if features geojson_data \<noteq> [] then
                   (case save_geojson w geojson_data GEOJSON_FILE fs1 out3 of
                      (fs2, out4, Some e) \<Rightarrow> \<lparr>final_fs = fs2, printed = out4, raised = Some e\<rparr>
                    | (fs2, out4, None) \<Rightarrow>
                        \<lparr>final_fs = fs2, printed = out4 @ [Finished], raised = None\<rparr>)
                 else \<lparr>final_fs = fs1, printed = out3 @ [NoFeatures, Finished], raised = None\<rparr>)
          else \<lparr>final_fs = fs1, printed = out2 @ [NoFiles, Finished], raised = None\<rparr>))"


section \<open>Sample documents\<close>

text \<open>Concrete documents, a network and a file system on which the theorems below are
  instantiated.\<close>

definition sample_float :: "string \<Rightarrow> int pyfloat option" where
  "sample_float =
     map_of [(''1'', Val 1), (''2'', Val 2), (''3'', Val 3), (''4'', Val 4), (''5'', Val 5),
             (''6'', Val 6), (''nan'', NaN)]"

definition sample_coord :: "string \<Rightarrow> string \<Rightarrow> element" where
  "sample_coord la lo =
     Element (clark loc ''openlrCoordinates'') None
       [Element (clark loc ''latitude'') (Some la) [],
        Element (clark loc ''longitude'') (Some lo) []]"

definition sample_polygon :: element where
  "sample_polygon =
     Element (clark loc ''openlrPolygonCorners'') None
       [sample_coord ''1'' ''2'', sample_coord ''3'' ''4'', sample_coord ''5'' ''6'']"

definition sample_name :: "string option \<Rightarrow> element" where
  "sample_name t =
     Element (clark conz ''name'') None
       [Element (clark com ''values'') None [Element (clark com ''value'') t []]]"

definition sample_zone :: element where
  "sample_zone =
     Element (clark conz ''controlledZone'') None
       [sample_name (Some ''Madrid Central''),
        Element (clark loc ''openlrAreaLocationReference'') None [sample_polygon]]"

definition sample_zone_no_coords :: element where
  "sample_zone_no_coords =
     Element (clark conz ''controlledZone'') None
       [sample_name (Some ''Empty''), Element (clark loc ''openlrPolygonCorners'') None []]"

definition sample_zone_no_text :: element where
  "sample_zone_no_text =
     Element (clark conz ''controlledZone'') None [sample_name None, sample_polygon]"

definition sample_zone_bad :: element where
  "sample_zone_bad =
     Element (clark conz ''controlledZone'') None
       [sample_name (Some ''Broken''),
        Element (clark loc ''openlrPolygonCorners'') None
          [Element (clark loc ''openlrCoordinates'') None
             [Element (clark loc ''longitude'') (Some ''2'') []]]]"

definition sample_root :: element where
  "sample_root = Element ''payload'' None [sample_zone]"

definition sample_root_partial :: element where
  "sample_root_partial = Element ''payload'' None [sample_zone, sample_zone_bad, sample_zone]"

definition sample_index :: "html list" where
  "sample_index =
     [Tag ''html'' []
        [Tag ''body'' []
           [Tag ''a'' [(''href'', ''../'')] [NavigableString ''Parent Directory''],
            Tag ''a'' [(''href'', ''a.xml'')] [NavigableString ''a.xml''],
            Tag ''a'' [(''name'', ''top'')] [],
            Tag ''p'' [] [Tag ''a'' [(''href'', ''b.xml'')] [NavigableString ''b.xml'']],
            Tag ''a'' [(''href'', ''notes.txt'')] [],
            Tag ''a'' [(''href'', ''c.xml'')] []]]]"

definition sample_response :: "string \<Rightarrow> response" where
  "sample_response s = \<lparr>status_code = 200, content = s, body_text = s\<rparr>"

definition sample_world :: "int world" where
  "sample_world =
     \<lparr>requests_get = (\<lambda>url.
        if url = BASE_URL then Inr (sample_response ''index'')
        else if url = BASE_URL @ ''a.xml'' then Inr (sample_response ''A'')
        else if url = BASE_URL @ ''b.xml'' then Inr \<lparr>status_code = 404, content = [], body_text = []\<rparr>
        else if url = BASE_URL @ ''c.xml'' then Inr (sample_response ''C'')
        else Inl RequestException),
      fromstring = (\<lambda>s.
        if s = ''A'' then Inr sample_root
        else if s = ''C'' then Inr sample_root_partial
        else Inl ParseError),
      float_of = sample_float,
      html_parser = (\<lambda>s. if s = ''index'' then sample_index else []),
      json_dump = (\<lambda>data. ''geojson'')\<rparr>"

definition sample_world_down :: "int world" where
  "sample_world_down =
     sample_world\<lparr>requests_get := (\<lambda>url.
        if url = BASE_URL then Inr (sample_response ''index'') else Inl RequestException)\<rparr>"

definition sample_fs :: filesystem where
  "sample_fs =
     [(''data'', Dir),
      (''data/old.xml'', File ''old''),
      (''data/low_emission_zones.geojson'', File ''previous'')]"

definition sample_ring :: "int pyfloat list list" where
  "sample_ring = [[Val 2, Val 1], [Val 4, Val 3], [Val 6, Val 5], [Val 2, Val 1]]"

definition sample_feature :: "int feature" where
  "sample_feature = make_feature (Some ''Madrid Central'') [sample_ring]"

section \<open>The loops and the claims\<close>

subsection \<open>Rings\<close>

lemma coords_loop_map:
  "map (lat_lon fl) es = map Inr pairs \<Longrightarrow>
   coords_loop fl es acc = Inr (acc @ map (\<lambda>(lat, lon). [lon, lat]) pairs)"
proof (induction es arbitrary: acc pairs)
  case Nil
  then show ?case by simp
next
  case (Cons e es)
  then obtain p ps where pairs: "pairs = p # ps" by (cases pairs) auto
  with Cons.prems have h: "lat_lon fl e = Inr p" and t: "map (lat_lon fl) es = map Inr ps" by auto
  obtain lat lon where p: "p = (lat, lon)" by (cases p)
  show ?case using Cons.IH[OF t] h by (simp add: pairs p)
qed

lemma float_eq_imp_eq: "float_eq a b \<Longrightarrow> a = b"
  by (cases a; cases b) auto

lemma list_all2_float_eq_imp_eq: "list_all2 float_eq xs ys \<Longrightarrow> xs = ys"
  by (induction rule: list_all2_induct) (auto dest: float_eq_imp_eq)

lemma float_eq_refl: "a \<noteq> NaN \<Longrightarrow> float_eq a a"
  by (cases a) simp_all

lemma list_all2_float_eq_no_NaN:
  assumes "NaN \<notin> set xs"
  shows "list_all2 float_eq xs ys = (xs = ys)"
proof
  assume "list_all2 float_eq xs ys"
  then show "xs = ys" by (rule list_all2_float_eq_imp_eq)
next
  assume "xs = ys"
  moreover have "list_all2 float_eq xs xs"
    unfolding list_all2_same using assms float_eq_refl by metis
  ultimately show "list_all2 float_eq xs ys" by simp
qed

lemma close_ring_closed:
  "close_ring coords \<noteq> [] \<Longrightarrow> hd (close_ring coords) = last (close_ring coords)"
proof (cases "coords \<noteq> [] \<and> first_last_differ coords")
  case True
  then show ?thesis by (simp add: close_ring_def)
next
  case False
  assume ne: "close_ring coords \<noteq> []"
  from False have same: "close_ring coords = coords" by (simp add: close_ring_def)
  with ne have c: "coords \<noteq> []" by simp
  with False have "length coords = 1 \<or> list_all2 float_eq (hd coords) (last coords)"
    by (auto simp: first_last_differ_def)
  then have "hd coords = last coords"
  proof
    assume "length coords = 1"
    then show ?thesis by (cases coords) auto
  next
    assume "list_all2 float_eq (hd coords) (last coords)"
    then show ?thesis by (rule list_all2_float_eq_imp_eq)
  qed
  with same show ?thesis by simp
qed

lemma polygons_loop_map:
  "map (polygon_coords fl) ps = map Inr rings \<Longrightarrow> polygons_loop fl ps acc = Inr (acc @ rings)"
proof (induction ps arbitrary: acc rings)
  case Nil
  then show ?case by simp
next
  case (Cons p ps)
  then obtain r rs where rings: "rings = r # rs" by (cases rings) auto
  with Cons.prems have h: "polygon_coords fl p = Inr r"
    and t: "map (polygon_coords fl) ps = map Inr rs" by auto
  show ?case using Cons.IH[OF t] h by (simp add: rings)
qed

lemma polygons_loop_Inr:
  "polygons_loop fl ps acc = Inr polygons \<Longrightarrow>
   \<exists>rings. polygons = acc @ rings \<and> map (polygon_coords fl) ps = map Inr rings"
proof (induction ps arbitrary: acc)
  case Nil
  then show ?case by simp
next
  case (Cons p ps)
  from Cons.prems obtain r where h: "polygon_coords fl p = Inr r"
    and t: "polygons_loop fl ps (acc @ [r]) = Inr polygons"
    by (auto split: sum.splits)
  from Cons.IH[OF t] obtain rs where "polygons = (acc @ [r]) @ rs"
    and "map (polygon_coords fl) ps = map Inr rs" by blast
  with h show ?case by (intro exI[of _ "r # rs"]) simp
qed

lemma zone_polygons_rings:
  "zone_polygons fl zone = Inr polygons \<longleftrightarrow>
   map (polygon_coords fl) (findall_descendants (clark loc ''openlrPolygonCorners'') zone) = map Inr polygons"
proof
  assume "zone_polygons fl zone = Inr polygons"
  then have "polygons_loop fl (findall_descendants (clark loc ''openlrPolygonCorners'') zone) [] = Inr polygons"
    by (simp only: zone_polygons_def)
  from polygons_loop_Inr[OF this] show "map (polygon_coords fl) (findall_descendants (clark loc ''openlrPolygonCorners'') zone) = map Inr polygons"
    by simp
next
  assume "map (polygon_coords fl) (findall_descendants (clark loc ''openlrPolygonCorners'') zone) = map Inr polygons"
  from polygons_loop_map[OF this, of "[]"] show "zone_polygons fl zone = Inr polygons"
    by (simp only: zone_polygons_def append_Nil)
qed

lemma map_eq_map_witness:
  "map f xs = map g ys \<Longrightarrow> y \<in> set ys \<Longrightarrow> \<exists>x\<in>set xs. f x = g y"
proof (induction xs arbitrary: ys)
  case Nil
  then show ?case by simp
next
  case (Cons x xs)
  then obtain z zs where ys: "ys = z # zs" by (cases ys) auto
  with Cons.prems have hd: "f x = g z" and tl: "map f xs = map g zs" by auto
  show ?case
  proof (cases "y = z")
    case True
    with hd show ?thesis by simp
  next
    case False
    with Cons.prems(2) ys have "y \<in> set zs" by simp
    from Cons.IH[OF tl this] show ?thesis by auto
  qed
qed

lemma polygon_coords_closed:
  assumes "polygon_coords fl p = Inr ring" and "ring \<noteq> []"
  shows "hd ring = last ring"
proof (cases "coords_loop fl (findall_children (clark loc ''openlrCoordinates'') p) []")
  case (Inl e)
  with assms(1) show ?thesis by (simp add: polygon_coords_def)
next
  case (Inr coords)
  with assms(1) have "ring = close_ring coords" by (simp add: polygon_coords_def)
  with assms(2) show ?thesis using close_ring_closed[of coords] by simp
qed

lemma zone_polygons_closed:
  assumes "zone_polygons fl zone = Inr polygons" and "ring \<in> set polygons" and "ring \<noteq> []"
  shows "hd ring = last ring"
proof -
  from assms(1) have m: "map (polygon_coords fl) (findall_descendants (clark loc ''openlrPolygonCorners'') zone) = map Inr polygons"
    by (simp only: zone_polygons_rings)
  from map_eq_map_witness[OF m assms(2)] obtain p where "polygon_coords fl p = Inr ring" by blast
  from polygon_coords_closed[OF this assms(3)] show ?thesis .
qed

subsection \<open>Zones\<close>

lemma process_zone_cases:
  "process_zone fl z fs =
     (case zone_polygons fl z of
        Inl e \<Rightarrow> Inl e
      | Inr polygons \<Rightarrow>
          Inr (fs @ (if polygons \<noteq> [] then [make_feature (zone_name z) polygons] else [])))"
  by (simp add: process_zone_def split: sum.split)

lemma zones_loop_acc:
  "zones_loop fl zs fs = (fs @ fst (zones_loop fl zs []), snd (zones_loop fl zs []))"
proof (induction zs arbitrary: fs)
  case Nil
  then show ?case by simp
next
  case (Cons z zs)
  show ?case
  proof (cases "zone_polygons fl z")
    case (Inl e)
    then show ?thesis by (simp add: process_zone_cases)
  next
    case (Inr polygons)
    define g where "g = (if polygons \<noteq> [] then [make_feature (zone_name z) polygons] else [])"
    have 1: "zones_loop fl (z # zs) fs = zones_loop fl zs (fs @ g)"
      by (simp add: process_zone_cases Inr g_def)
    have 2: "zones_loop fl (z # zs) [] = zones_loop fl zs g"
      by (simp add: process_zone_cases Inr g_def)
    have 3: "zones_loop fl zs (fs @ g) = ((fs @ g) @ fst (zones_loop fl zs []), snd (zones_loop fl zs []))"
      by (rule Cons.IH)
    have 4: "zones_loop fl zs g = (g @ fst (zones_loop fl zs []), snd (zones_loop fl zs []))"
      by (rule Cons.IH)
    show ?thesis unfolding 1 2 3 4 by simp
  qed
qed

lemma zones_loop_origin:
  "f \<in> set (fst (zones_loop fl zs fs)) \<Longrightarrow>
   f \<in> set fs \<or> (\<exists>zone polygons. zone \<in> set zs \<and> zone_polygons fl zone = Inr polygons \<and> polygons \<noteq> []
       \<and> f = make_feature (zone_name zone) polygons)"
proof (induction zs arbitrary: fs)
  case Nil
  then show ?case by simp
next
  case (Cons z zs)
  show ?case
  proof (cases "zone_polygons fl z")
    case (Inl e)
    with Cons.prems show ?thesis by (simp add: process_zone_cases)
  next
    case (Inr polygons)
    show ?thesis
    proof (cases "polygons = []")
      case True
      with Cons.prems Inr have "f \<in> set (fst (zones_loop fl zs fs))" by (simp add: process_zone_cases)
      from Cons.IH[OF this] show ?thesis by auto
    next
      case False
      with Cons.prems Inr have "f \<in> set (fst (zones_loop fl zs (fs @ [make_feature (zone_name z) polygons])))"
        by (simp add: process_zone_cases)
      from Cons.IH[OF this] have "f \<in> set fs \<or> f = make_feature (zone_name z) polygons
          \<or> (\<exists>zone polygons. zone \<in> set zs \<and> zone_polygons fl zone = Inr polygons \<and> polygons \<noteq> []
              \<and> f = make_feature (zone_name zone) polygons)" by auto
      then show ?thesis
      proof (elim disjE)
        assume "f \<in> set fs" then show ?thesis by simp
      next
        assume "f = make_feature (zone_name z) polygons"
        with Inr False have "z \<in> set (z # zs) \<and> zone_polygons fl z = Inr polygons \<and> polygons \<noteq> []
              \<and> f = make_feature (zone_name z) polygons" by simp
        then show ?thesis by blast
      next
        assume "\<exists>zone polygons. zone \<in> set zs \<and> zone_polygons fl zone = Inr polygons \<and> polygons \<noteq> []
              \<and> f = make_feature (zone_name zone) polygons"
        then obtain zone ps where "zone \<in> set (z # zs) \<and> zone_polygons fl zone = Inr ps \<and> ps \<noteq> []
              \<and> f = make_feature (zone_name zone) ps" by auto
        then show ?thesis by blast
      qed
    qed
  qed
qed

subsection \<open>Addresses\<close>

lemma try_url_get_fails:
  "requests_get w url = Inl e \<Longrightarrow> try_url w url fs = (fs, Some e)"
  by (simp add: try_url_def)

lemma try_url_status_fails:
  "requests_get w url = Inr r \<Longrightarrow> raise_for_status r = Some e \<Longrightarrow> try_url w url fs = (fs, Some e)"
  by (simp add: try_url_def)

lemma try_url_parse_fails:
  "requests_get w url = Inr r \<Longrightarrow> raise_for_status r = None \<Longrightarrow> fromstring w (content r) = Inl e
   \<Longrightarrow> try_url w url fs = (fs, Some e)"
  by (simp add: try_url_def)

lemma try_url_parsed:
  "requests_get w url = Inr r \<Longrightarrow> raise_for_status r = None \<Longrightarrow> fromstring w (content r) = Inr root
   \<Longrightarrow> try_url w url fs =
       zones_loop (float_of w) (findall_descendants (clark conz ''controlledZone'') root) fs"
  by (simp add: try_url_def)

lemma try_url_acc:
  "try_url w url fs = (fs @ fst (try_url w url []), snd (try_url w url []))"
proof (cases "requests_get w url")
  case (Inl e)
  then show ?thesis by (simp add: try_url_get_fails)
next
  case (Inr r)
  note get = this
  show ?thesis
  proof (cases "raise_for_status r")
    case (Some e)
    with get show ?thesis by (simp add: try_url_status_fails)
  next
    case None
    show ?thesis
    proof (cases "fromstring w (content r)")
      case (Inl e)
      with get None show ?thesis by (simp add: try_url_parse_fails)
    next
      case (Inr root)
      show ?thesis
        unfolding try_url_parsed[OF get None Inr]
        by (rule zones_loop_acc)
    qed
  qed
qed

lemma try_url_origin:
  assumes "f \<in> set (fst (try_url w url []))"
  shows "\<exists>r root zone polygons. requests_get w url = Inr r \<and> raise_for_status r = None
      \<and> fromstring w (content r) = Inr root
      \<and> zone \<in> set (findall_descendants (clark conz ''controlledZone'') root)
      \<and> zone_polygons (float_of w) zone = Inr polygons \<and> polygons \<noteq> []
      \<and> f = make_feature (zone_name zone) polygons"
proof (cases "requests_get w url")
  case (Inl e)
  with assms show ?thesis by (simp add: try_url_get_fails)
next
  case (Inr r)
  note get = this
  show ?thesis
  proof (cases "raise_for_status r")
    case (Some e)
    with get assms show ?thesis by (simp add: try_url_status_fails)
  next
    case None
    show ?thesis
    proof (cases "fromstring w (content r)")
      case (Inl e)
      with get None assms show ?thesis by (simp add: try_url_parse_fails)
    next
      case (Inr root)
      from assms have "f \<in> set (fst (zones_loop (float_of w)
          (findall_descendants (clark conz ''controlledZone'') root) []))"
        by (simp only: try_url_parsed[OF get None Inr])
      from zones_loop_origin[OF this] obtain zone polygons where
        "zone \<in> set (findall_descendants (clark conz ''controlledZone'') root)"
        "zone_polygons (float_of w) zone = Inr polygons" "polygons \<noteq> []"
        "f = make_feature (zone_name zone) polygons" by auto
      with get None Inr show ?thesis by blast
    qed
  qed
qed

lemma urls_loop_features:
  "fst (urls_loop w urls (fs, out)) = fs @ concat (map (\<lambda>url. fst (try_url w url [])) urls)"
proof (induction urls arbitrary: fs out)
  case Nil
  then show ?case by simp
next
  case (Cons url urls)
  obtain gs r where t: "try_url w url [] = (gs, r)" by (cases "try_url w url []")
  then have t': "try_url w url fs = (fs @ gs, r)" using try_url_acc[of w url fs] by simp
  show ?case
  proof (cases r)
    case None
    with t t' Cons.IH[of "fs @ gs" out] show ?thesis by simp
  next
    case (Some e)
    with t t' Cons.IH[of "fs @ gs" "out @ [handler url e]"] show ?thesis by simp
  qed
qed

lemma process_features:
  "features (fst (process_xml_to_geojson w urls out)) =
   concat (map (\<lambda>url. fst (try_url w url [])) urls)"
proof -
  obtain gs out' where u: "urls_loop w urls ([], out @ [Found (length urls)]) = (gs, out')"
    by (cases "urls_loop w urls ([], out @ [Found (length urls)])")
  with urls_loop_features[of w urls "[]" "out @ [Found (length urls)]"]
  have "gs = concat (map (\<lambda>url. fst (try_url w url [])) urls)" by simp
  with u show ?thesis by (simp add: process_xml_to_geojson_def)
qed

lemma process_ctype:
  "ctype (fst (process_xml_to_geojson w urls out)) = ''FeatureCollection''"
  by (simp add: process_xml_to_geojson_def split: prod.split)

lemma process_origin:
  assumes "f \<in> set (features (fst (process_xml_to_geojson w urls out)))"
  shows "\<exists>url r root zone polygons. url \<in> set urls \<and> requests_get w url = Inr r
      \<and> raise_for_status r = None \<and> fromstring w (content r) = Inr root
      \<and> zone \<in> set (findall_descendants (clark conz ''controlledZone'') root)
      \<and> zone_polygons (float_of w) zone = Inr polygons \<and> polygons \<noteq> []
      \<and> f = make_feature (zone_name zone) polygons"
proof -
  from assms obtain url where "url \<in> set urls" and "f \<in> set (fst (try_url w url []))"
    by (auto simp: process_features)
  with try_url_origin[of f w url] show ?thesis by blast
qed

subsection \<open>The ring of a polygon\<close>

lemma first_last_differ_no_NaN:
  assumes "coords \<noteq> []" and "NaN \<notin> set (hd coords)"
  shows "first_last_differ coords \<longleftrightarrow> hd coords \<noteq> last coords"
proof (cases "length coords = 1")
  case True
  then have "hd coords = last coords" by (cases coords) auto
  with True show ?thesis by (simp add: first_last_differ_def)
next
  case False
  then show ?thesis
    by (simp add: first_last_differ_def list_all2_float_eq_no_NaN[OF assms(2)])
qed

lemma polygon_coords_map:
  assumes "map (lat_lon fl) (findall_children (clark loc ''openlrCoordinates'') polygon) = map Inr pairs"
  shows "polygon_coords fl polygon = Inr (close_ring (map (\<lambda>(lat, lon). [lon, lat]) pairs))"
  using coords_loop_map[OF assms, of "[]"] by (simp add: polygon_coords_def)

lemma hd_swapped_no_NaN:
  assumes "\<forall>p\<in>set pairs. fst p \<noteq> NaN \<and> snd p \<noteq> NaN" and "pairs \<noteq> []"
  shows "NaN \<notin> set (hd (map (\<lambda>(lat, lon). [lon, lat]) pairs))"
proof -
  obtain p ps where "pairs = p # ps" using assms(2) by (cases pairs) auto
  with assms(1) show ?thesis by (cases p) auto
qed

lemma single_polygon_zone:
  assumes "findall_descendants (clark loc ''openlrPolygonCorners'') zone = [polygon]"
    and "polygon_coords fl polygon = Inr ring"
  shows "process_zone fl zone fs = Inr (fs @ [make_feature (zone_name zone) [ring]])"
  using assms by (simp add: process_zone_def zone_polygons_def)

lemma process_zone_ring_at:
  assumes z: "process_zone fl zone fs = Inr fs'"
    and i: "i < length (findall_descendants (clark loc ''openlrPolygonCorners'') zone)"
    and r: "polygon_coords fl (findall_descendants (clark loc ''openlrPolygonCorners'') zone ! i) = Inr ring"
  shows "\<exists>f polygons. fs' = fs @ [f] \<and> coordinates (geometry f) = [polygons]
           \<and> length polygons = length (findall_descendants (clark loc ''openlrPolygonCorners'') zone)
           \<and> polygons ! i = ring"
proof (cases "zone_polygons fl zone")
  case (Inl e)
  with z show ?thesis by (simp add: process_zone_def)
next
  case (Inr polygons)
  then have m: "map (polygon_coords fl) (findall_descendants (clark loc ''openlrPolygonCorners'') zone)
      = map Inr polygons" by (simp only: zone_polygons_rings)
  then have "length (map (polygon_coords fl) (findall_descendants (clark loc ''openlrPolygonCorners'') zone))
      = length (map (Inr :: _ \<Rightarrow> exn + _) polygons)" by simp
  then have l: "length polygons = length (findall_descendants (clark loc ''openlrPolygonCorners'') zone)"
    by simp
  from m have "map (polygon_coords fl) (findall_descendants (clark loc ''openlrPolygonCorners'') zone) ! i
      = map Inr polygons ! i" by simp
  with i l have "polygon_coords fl (findall_descendants (clark loc ''openlrPolygonCorners'') zone ! i)
      = Inr (polygons ! i)" by simp
  with r have n: "polygons ! i = ring" by simp
  from i l have ne: "polygons \<noteq> []" by auto
  with z Inr have f: "fs' = fs @ [make_feature (zone_name zone) polygons]"
    by (simp add: process_zone_def)
  have c: "coordinates (geometry (make_feature (zone_name zone) polygons)) = [polygons]"
    by (simp add: make_feature_def)
  from f c l n show ?thesis by blast
qed

text \<open>
  C1. For every polygon boundary, each coordinate element parsed as a (latitude,
  longitude) pair is emitted as a [longitude, latitude] pair, and when the resulting ring is
  not empty and its first and last pairs differ, a copy of the first pair is appended. Where
  no parsed float is NaN, "differ" is plain inequality of the two pairs. The ring is emitted:
  the feature that the zone appends has one group of coordinates, with one ring for each
  polygon element of the zone, and the ring at the position of the polygon is that ring. In
  particular the parsed pairs (1,2), (3,4), (5,6) give the ring [2,1], [4,3], [6,5], [2,1],
  and the coordinates of the feature of a zone with that single polygon are the one group
  with that one ring.
\<close>

theorem ring_reordered_and_closed:
  "(map (lat_lon fl) (findall_children (clark loc ''openlrCoordinates'') polygon) = map Inr pairs \<longrightarrow>
      polygon_coords fl polygon =
        Inr (let ring = map (\<lambda>(lat, lon). [lon, lat]) pairs
             in if ring \<noteq> [] \<and> first_last_differ ring then ring @ [hd ring] else ring)
      \<and> ((\<forall>p\<in>set pairs. fst p \<noteq> NaN \<and> snd p \<noteq> NaN) \<longrightarrow>
          polygon_coords fl polygon =
            Inr (let ring = map (\<lambda>(lat, lon). [lon, lat]) pairs
                 in if ring \<noteq> [] \<and> hd ring \<noteq> last ring then ring @ [hd ring] else ring))
      \<and> (process_zone fl zone fs = Inr fs'
           \<and> i < length (findall_descendants (clark loc ''openlrPolygonCorners'') zone)
           \<and> findall_descendants (clark loc ''openlrPolygonCorners'') zone ! i = polygon \<longrightarrow>
          (\<exists>f polygons. fs' = fs @ [f]
             \<and> coordinates (geometry f) = [polygons]
             \<and> length polygons = length (findall_descendants (clark loc ''openlrPolygonCorners'') zone)
             \<and> polygons ! i =
                 (let ring = map (\<lambda>(lat, lon). [lon, lat]) pairs
                  in if ring \<noteq> [] \<and> first_last_differ ring then ring @ [hd ring] else ring))))
   \<and> (map (lat_lon fr) (findall_children (clark loc ''openlrCoordinates'') polygon2)
         = map Inr [(Val (1::int), Val 2), (Val 3, Val 4), (Val 5, Val 6)] \<longrightarrow>
      polygon_coords fr polygon2 = Inr [[Val 2, Val 1], [Val 4, Val 3], [Val 6, Val 5], [Val 2, Val 1]]
      \<and> (findall_descendants (clark loc ''openlrPolygonCorners'') zone2 = [polygon2] \<longrightarrow>
           (\<exists>f. process_zone fr zone2 fs2 = Inr (fs2 @ [f])
              \<and> f = make_feature (zone_name zone2)
                     [[[Val 2, Val 1], [Val 4, Val 3], [Val 6, Val 5], [Val 2, Val 1]]]
              \<and> coordinates (geometry f)
                   = [[[[Val 2, Val 1], [Val 4, Val 3], [Val 6, Val 5], [Val 2, Val 1]]]])))"
proof (intro conjI impI)
  assume m: "map (lat_lon fl) (findall_children (clark loc ''openlrCoordinates'') polygon) = map Inr pairs"
  show 1: "polygon_coords fl polygon =
        Inr (let ring = map (\<lambda>(lat, lon). [lon, lat]) pairs
             in if ring \<noteq> [] \<and> first_last_differ ring then ring @ [hd ring] else ring)"
    by (simp add: polygon_coords_map[OF m] close_ring_def Let_def)
  {
    assume n: "\<forall>p\<in>set pairs. fst p \<noteq> NaN \<and> snd p \<noteq> NaN"
    show "polygon_coords fl polygon =
            Inr (let ring = map (\<lambda>(lat, lon). [lon, lat]) pairs
                 in if ring \<noteq> [] \<and> hd ring \<noteq> last ring then ring @ [hd ring] else ring)"
    proof (cases "pairs = []")
      case True
      then show ?thesis by (simp add: polygon_coords_map[OF m] close_ring_def)
    next
      case False
      then have ne: "map (\<lambda>(lat, lon). [lon, lat]) pairs \<noteq> []" by simp
      from first_last_differ_no_NaN[OF ne hd_swapped_no_NaN[OF n False]]
      show ?thesis unfolding 1 Let_def by simp
    qed
  }
  {
    assume a: "process_zone fl zone fs = Inr fs'
           \<and> i < length (findall_descendants (clark loc ''openlrPolygonCorners'') zone)
           \<and> findall_descendants (clark loc ''openlrPolygonCorners'') zone ! i = polygon"
    then have z: "process_zone fl zone fs = Inr fs'"
      and i: "i < length (findall_descendants (clark loc ''openlrPolygonCorners'') zone)"
      and p: "findall_descendants (clark loc ''openlrPolygonCorners'') zone ! i = polygon"
      by simp_all
    from 1 p have r: "polygon_coords fl (findall_descendants (clark loc ''openlrPolygonCorners'') zone ! i)
        = Inr (let ring = map (\<lambda>(lat, lon). [lon, lat]) pairs
               in if ring \<noteq> [] \<and> first_last_differ ring then ring @ [hd ring] else ring)"
      by simp
    from process_zone_ring_at[OF z i r]
    show "\<exists>f polygons. fs' = fs @ [f]
             \<and> coordinates (geometry f) = [polygons]
             \<and> length polygons = length (findall_descendants (clark loc ''openlrPolygonCorners'') zone)
             \<and> polygons ! i =
                 (let ring = map (\<lambda>(lat, lon). [lon, lat]) pairs
                  in if ring \<noteq> [] \<and> first_last_differ ring then ring @ [hd ring] else ring)" .
  }
next
  assume m: "map (lat_lon fr) (findall_children (clark loc ''openlrCoordinates'') polygon2)
         = map Inr [(Val (1::int), Val 2), (Val 3, Val 4), (Val 5, Val 6)]"
  show r: "polygon_coords fr polygon2 = Inr [[Val 2, Val 1], [Val 4, Val 3], [Val 6, Val 5], [Val 2, Val 1]]"
    by (simp add: polygon_coords_map[OF m] close_ring_def first_last_differ_def)
  assume "findall_descendants (clark loc ''openlrPolygonCorners'') zone2 = [polygon2]"
  from single_polygon_zone[OF this r, of fs2]
  show "\<exists>f. process_zone fr zone2 fs2 = Inr (fs2 @ [f])
              \<and> f = make_feature (zone_name zone2)
                     [[[Val 2, Val 1], [Val 4, Val 3], [Val 6, Val 5], [Val 2, Val 1]]]
              \<and> coordinates (geometry f)
                   = [[[[Val 2, Val 1], [Val 4, Val 3], [Val 6, Val 5], [Val 2, Val 1]]]]"
    by (simp add: make_feature_def)
qed

lemma sample_tags [simp]:
  "clark loc ''latitude'' \<noteq> clark loc ''longitude''"
  "clark loc ''longitude'' \<noteq> clark loc ''latitude''"
  by (simp_all add: clark_def)

lemma sample_coord_lat_lon:
  "sample_float la = Some a \<Longrightarrow> sample_float lo = Some b \<Longrightarrow>
   lat_lon sample_float (sample_coord la lo) = Inr (a, b)"
  by (simp add: lat_lon_def find_text_def find_child_def findall_children_def first_match_def
      py_float_def sample_coord_def)

lemma sample_float_values:
  "sample_float ''1'' = Some (Val 1)" "sample_float ''2'' = Some (Val 2)"
  "sample_float ''3'' = Some (Val 3)" "sample_float ''4'' = Some (Val 4)"
  "sample_float ''5'' = Some (Val 5)" "sample_float ''6'' = Some (Val 6)"
  by (simp_all add: sample_float_def)

lemma sample_polygon_pairs:
  "map (lat_lon sample_float) (findall_children (clark loc ''openlrCoordinates'') sample_polygon)
   = map Inr [(Val 1, Val 2), (Val 3, Val 4), (Val 5, Val 6)]"
proof -
  have "findall_children (clark loc ''openlrCoordinates'') sample_polygon
        = [sample_coord ''1'' ''2'', sample_coord ''3'' ''4'', sample_coord ''5'' ''6'']"
    by (simp add: sample_polygon_def findall_children_def sample_coord_def)
  then show ?thesis
    by (simp add: sample_coord_lat_lon sample_float_values)
qed

lemma sample_zone_polygons:
  "findall_descendants (clark loc ''openlrPolygonCorners'') sample_zone = [sample_polygon]"
  by (simp add: findall_descendants_def sample_zone_def sample_name_def sample_polygon_def
      sample_coord_def clark_def loc_def conz_def com_def)

lemma sample_zone_name: "zone_name sample_zone = Some ''Madrid Central''"
  by (simp add: zone_name_def find_name_value_def findall_descendants_def findall_children_def
      first_match_def sample_zone_def sample_name_def sample_polygon_def sample_coord_def
      clark_def loc_def conz_def com_def)

theorem ring_reordered_and_closed_witness:
  "polygon_coords sample_float sample_polygon
     = Inr [[Val 2, Val 1], [Val 4, Val 3], [Val 6, Val 5], [Val 2, Val 1]]
   \<and> (\<exists>f. process_zone sample_float sample_zone [] = Inr ([] @ [f])
         \<and> ftype f = ''Feature''
         \<and> coordinates (geometry f)
             = [[[[Val 2, Val 1], [Val 4, Val 3], [Val 6, Val 5], [Val 2, Val 1]]]])
   \<and> (\<exists>f polygons. process_zone sample_float sample_zone [] = Inr ([] @ [f])
         \<and> coordinates (geometry f) = [polygons]
         \<and> length polygons = 1
         \<and> polygons ! 0 = [[Val 2, Val 1], [Val 4, Val 3], [Val 6, Val 5], [Val 2, Val 1]])"
proof -
  note t = ring_reordered_and_closed[of sample_float sample_polygon
      "[(Val 1, Val 2), (Val 3, Val 4), (Val 5, Val 6)]" sample_zone "[]"
      "[make_feature (Some ''Madrid Central'')
          [[[Val 2, Val 1], [Val 4, Val 3], [Val 6, Val 5], [Val 2, Val 1]]]]" 0
      sample_float sample_polygon sample_zone "[]"]
  have 1: "polygon_coords sample_float sample_polygon
     = Inr [[Val 2, Val 1], [Val 4, Val 3], [Val 6, Val 5], [Val 2, Val 1]]"
    using t sample_polygon_pairs by blast
  have 2: "\<exists>f. process_zone sample_float sample_zone [] = Inr ([] @ [f])
         \<and> f = make_feature (zone_name sample_zone)
                [[[Val 2, Val 1], [Val 4, Val 3], [Val 6, Val 5], [Val 2, Val 1]]]
         \<and> coordinates (geometry f)
             = [[[[Val 2, Val 1], [Val 4, Val 3], [Val 6, Val 5], [Val 2, Val 1]]]]"
    using t sample_polygon_pairs sample_zone_polygons by blast
  have z: "process_zone sample_float sample_zone []
      = Inr [make_feature (Some ''Madrid Central'')
          [[[Val 2, Val 1], [Val 4, Val 3], [Val 6, Val 5], [Val 2, Val 1]]]]"
    using 2 by (auto simp: sample_zone_name)
  have i: "0 < length (findall_descendants (clark loc ''openlrPolygonCorners'') sample_zone)"
    and p: "findall_descendants (clark loc ''openlrPolygonCorners'') sample_zone ! 0 = sample_polygon"
    by (simp_all add: sample_zone_polygons)
  have r: "(let ring = map (\<lambda>(lat, lon). [lon, lat]) [(Val (1::int), Val 2), (Val 3, Val 4), (Val 5, Val 6)]
            in if ring \<noteq> [] \<and> first_last_differ ring then ring @ [hd ring] else ring)
      = [[Val 2, Val 1], [Val 4, Val 3], [Val 6, Val 5], [Val 2, Val 1]]"
    by (simp add: first_last_differ_def)
  have 3: "\<exists>f polygons.
         [make_feature (Some ''Madrid Central'')
            [[[Val 2, Val 1], [Val 4, Val 3], [Val 6, Val 5], [Val (2::int), Val 1]]]] = [] @ [f]
         \<and> coordinates (geometry f) = [polygons]
         \<and> length polygons = length (findall_descendants (clark loc ''openlrPolygonCorners'') sample_zone)
         \<and> polygons ! 0 =
             (let ring = map (\<lambda>(lat, lon). [lon, lat]) [(Val 1, Val 2), (Val 3, Val 4), (Val 5, Val 6)]
              in if ring \<noteq> [] \<and> first_last_differ ring then ring @ [hd ring] else ring)"
    using t sample_polygon_pairs z i p by blast
  from 2 have w2: "\<exists>f. process_zone sample_float sample_zone [] = Inr ([] @ [f])
         \<and> ftype f = ''Feature''
         \<and> coordinates (geometry f)
             = [[[[Val 2, Val 1], [Val 4, Val 3], [Val 6, Val 5], [Val 2, Val 1]]]]"
    by (auto simp: make_feature_def)
  from 3 have w3: "\<exists>f polygons. process_zone sample_float sample_zone [] = Inr ([] @ [f])
         \<and> coordinates (geometry f) = [polygons]
         \<and> length polygons = 1
         \<and> polygons ! 0 = [[Val 2, Val 1], [Val 4, Val 3], [Val 6, Val 5], [Val 2, Val 1]]"
    unfolding r z by (simp add: sample_zone_polygons)
  from 1 w2 w3 show ?thesis by blast
qed

lemmas sample_tag_defs = clark_def loc_def conz_def com_def

lemma sample_polygon_coords: "polygon_coords sample_float sample_polygon = Inr sample_ring"
  by (simp add: polygon_coords_map[OF sample_polygon_pairs] close_ring_def first_last_differ_def
      sample_ring_def)

lemma sample_zone_feature: "process_zone sample_float sample_zone fs = Inr (fs @ [sample_feature])"
  by (simp add: single_polygon_zone[OF sample_zone_polygons sample_polygon_coords]
      sample_zone_name sample_feature_def)

lemma sample_zone_no_coords_feature:
  "process_zone sample_float sample_zone_no_coords fs = Inr (fs @ [make_feature (Some ''Empty'') [[]]])"
proof -
  have p: "findall_descendants (clark loc ''openlrPolygonCorners'') sample_zone_no_coords
        = [Element (clark loc ''openlrPolygonCorners'') None []]"
    by (simp add: findall_descendants_def sample_zone_no_coords_def sample_name_def sample_tag_defs)
  have r: "polygon_coords sample_float (Element (clark loc ''openlrPolygonCorners'') None []) = Inr []"
    by (simp add: polygon_coords_def findall_children_def close_ring_def)
  have n: "zone_name sample_zone_no_coords = Some ''Empty''"
    by (simp add: zone_name_def find_name_value_def findall_descendants_def findall_children_def
      first_match_def sample_zone_no_coords_def sample_name_def sample_tag_defs)
  show ?thesis using single_polygon_zone[OF p r] by (simp add: n)
qed

lemma sample_zone_no_text_name: "zone_name sample_zone_no_text = None"
  by (simp add: zone_name_def find_name_value_def findall_descendants_def findall_children_def
      first_match_def sample_zone_no_text_def sample_name_def sample_polygon_def sample_coord_def
      sample_tag_defs)

lemma sample_zone_no_text_feature:
  "process_zone sample_float sample_zone_no_text fs = Inr (fs @ [make_feature None [sample_ring]])"
proof -
  have p: "findall_descendants (clark loc ''openlrPolygonCorners'') sample_zone_no_text = [sample_polygon]"
    by (simp add: findall_descendants_def sample_zone_no_text_def sample_name_def sample_polygon_def
      sample_coord_def sample_tag_defs)
  show ?thesis using single_polygon_zone[OF p sample_polygon_coords]
    by (simp add: sample_zone_no_text_name)
qed

lemma sample_zone_bad_raises: "process_zone sample_float sample_zone_bad fs = Inl AttributeError"
  by (simp add: process_zone_def zone_polygons_def findall_descendants_def sample_zone_bad_def
      sample_name_def polygon_coords_def findall_children_def lat_lon_def find_text_def
      find_child_def first_match_def sample_tag_defs)

subsection \<open>The collection\<close>

lemma sample_zones_a:
  "findall_descendants (clark conz ''controlledZone'') sample_root = [sample_zone]"
  by (simp add: findall_descendants_def sample_root_def sample_zone_def sample_name_def
      sample_polygon_def sample_coord_def sample_tag_defs)

lemma sample_zones_c:
  "findall_descendants (clark conz ''controlledZone'') sample_root_partial
     = [sample_zone, sample_zone_bad, sample_zone]"
  by (simp add: findall_descendants_def sample_root_partial_def sample_zone_def sample_zone_bad_def
      sample_name_def sample_polygon_def sample_coord_def sample_tag_defs)

lemma sample_try_a:
  "try_url sample_world (BASE_URL @ ''a.xml'') fs = (fs @ [sample_feature], None)"
proof -
  have g: "requests_get sample_world (BASE_URL @ ''a.xml'') = Inr (sample_response ''A'')"
    by (simp add: sample_world_def)
  have s: "raise_for_status (sample_response ''A'') = None"
    by (simp add: raise_for_status_def sample_response_def)
  have p: "fromstring sample_world (content (sample_response ''A'')) = Inr sample_root"
    by (simp add: sample_world_def sample_response_def)
  have f: "float_of sample_world = sample_float" by (simp add: sample_world_def)
  show ?thesis
    unfolding try_url_parsed[OF g s p] sample_zones_a f
    by (simp add: sample_zone_feature)
qed

lemma sample_try_b:
  "try_url sample_world (BASE_URL @ ''b.xml'') fs = (fs, Some HTTPError)"
proof -
  have g: "requests_get sample_world (BASE_URL @ ''b.xml'')
            = Inr \<lparr>status_code = 404, content = [], body_text = []\<rparr>"
    by (simp add: sample_world_def)
  have s: "raise_for_status \<lparr>status_code = 404, content = [], body_text = []\<rparr> = Some HTTPError"
    by (simp add: raise_for_status_def)
  show ?thesis by (rule try_url_status_fails[OF g s])
qed

lemma sample_try_c:
  "try_url sample_world (BASE_URL @ ''c.xml'') fs = (fs @ [sample_feature], Some AttributeError)"
proof -
  have g: "requests_get sample_world (BASE_URL @ ''c.xml'') = Inr (sample_response ''C'')"
    by (simp add: sample_world_def)
  have s: "raise_for_status (sample_response ''C'') = None"
    by (simp add: raise_for_status_def sample_response_def)
  have p: "fromstring sample_world (content (sample_response ''C'')) = Inr sample_root_partial"
    by (simp add: sample_world_def sample_response_def)
  have f: "float_of sample_world = sample_float" by (simp add: sample_world_def)
  show ?thesis
    unfolding try_url_parsed[OF g s p] sample_zones_c f
    by (simp add: sample_zone_feature sample_zone_bad_raises)
qed

lemma sample_process:
  "process_xml_to_geojson sample_world
     [BASE_URL @ ''a.xml'', BASE_URL @ ''b.xml'', BASE_URL @ ''c.xml''] []
   = (\<lparr>ctype = ''FeatureCollection'', features = [sample_feature, sample_feature]\<rparr>,
      [Found 3, ErrorFetching (BASE_URL @ ''b.xml'') HTTPError,
       UnexpectedError (BASE_URL @ ''c.xml'') AttributeError])"
  by (simp add: process_xml_to_geojson_def sample_try_a sample_try_b sample_try_c handler_def)

text \<open>
  C3. In every feature of the collection, every ring that is not empty has the same
  first and last coordinate pair.
\<close>

theorem emitted_rings_closed:
  "\<forall>f\<in>set (features (fst (process_xml_to_geojson w xml_urls out))).
     \<forall>polygons\<in>set (coordinates (geometry f)).
       \<forall>ring\<in>set polygons. ring \<noteq> [] \<longrightarrow> hd ring = last ring"
proof (intro ballI impI)
  fix f polygons ring
  assume f: "f \<in> set (features (fst (process_xml_to_geojson w xml_urls out)))"
    and p: "polygons \<in> set (coordinates (geometry f))"
    and r: "ring \<in> set polygons" and ne: "ring \<noteq> []"
  from process_origin[OF f] obtain zone ps where
    z: "zone_polygons (float_of w) zone = Inr ps" and f': "f = make_feature (zone_name zone) ps"
    by blast
  from p f' have "polygons = ps" by (simp add: make_feature_def)
  with r have "ring \<in> set ps" by simp
  from zone_polygons_closed[OF z this ne] show "hd ring = last ring" .
qed

theorem emitted_rings_closed_witness:
  "features (fst (process_xml_to_geojson sample_world
      [BASE_URL @ ''a.xml'', BASE_URL @ ''b.xml'', BASE_URL @ ''c.xml''] []))
     = [sample_feature, sample_feature]
   \<and> coordinates (geometry sample_feature) = [[sample_ring]]
   \<and> sample_ring \<noteq> [] \<and> hd sample_ring = last sample_ring"
  using emitted_rings_closed[of sample_world
      "[BASE_URL @ ''a.xml'', BASE_URL @ ''b.xml'', BASE_URL @ ''c.xml'']" "[]"]
  by (simp add: sample_process sample_feature_def make_feature_def sample_ring_def)

text \<open>
  C8. Every feature of the collection has type \<open>Feature\<close>, a \<open>name\<close> among its
  properties, and a geometry of type \<open>MultiPolygon\<close> whose coordinates are a list of
  exactly one group. It is the feature of a zone of a document that was retrieved and parsed
  for one of the addresses: the group holds the rings of all polygon elements of that zone,
  in order, and the name is that zone's. Conversely, a zone whose polygon elements are all
  read, and that has one at least, appends exactly one feature, of that type, with that name
  as its only property and with all the rings of the zone in the one group.
\<close>

theorem emitted_feature_shape:
  "(\<forall>f\<in>set (features (fst (process_xml_to_geojson w xml_urls out))).
      ftype f = ''Feature''
      \<and> map_of (properties f) ''name'' \<noteq> None
      \<and> gtype (geometry f) = ''MultiPolygon''
      \<and> length (coordinates (geometry f)) = 1
      \<and> (\<exists>url\<in>set xml_urls. \<exists>r root zone polygons.
            requests_get w url = Inr r \<and> raise_for_status r = None
            \<and> fromstring w (content r) = Inr root
            \<and> zone \<in> set (findall_descendants (clark conz ''controlledZone'') root)
            \<and> map (polygon_coords (float_of w))
                  (findall_descendants (clark loc ''openlrPolygonCorners'') zone) = map Inr polygons
            \<and> polygons \<noteq> []
            \<and> coordinates (geometry f) = [polygons]
            \<and> properties f = [(''name'', zone_name zone)]))
   \<and> (map (polygon_coords fl) (findall_descendants (clark loc ''openlrPolygonCorners'') z)
         = map Inr rings \<and> rings \<noteq> [] \<longrightarrow>
        (\<exists>f. process_zone fl z fs = Inr (fs @ [f])
           \<and> ftype f = ''Feature''
           \<and> properties f = [(''name'', zone_name z)]
           \<and> gtype (geometry f) = ''MultiPolygon''
           \<and> coordinates (geometry f) = [rings]))"
proof (intro conjI ballI impI)
  fix f
  assume f: "f \<in> set (features (fst (process_xml_to_geojson w xml_urls out)))"
  from process_origin[OF f] obtain url r root zone ps where
    u: "url \<in> set xml_urls" and g: "requests_get w url = Inr r" and st: "raise_for_status r = None"
    and pr: "fromstring w (content r) = Inr root"
    and zm: "zone \<in> set (findall_descendants (clark conz ''controlledZone'') root)"
    and z: "zone_polygons (float_of w) zone = Inr ps" and ne: "ps \<noteq> []"
    and f': "f = make_feature (zone_name zone) ps"
    by blast
  from z have m: "map (polygon_coords (float_of w))
               (findall_descendants (clark loc ''openlrPolygonCorners'') zone) = map Inr ps"
    by (simp only: zone_polygons_rings)
  have c: "coordinates (geometry f) = [ps]" and n: "properties f = [(''name'', zone_name zone)]"
    by (simp_all add: f' make_feature_def)
  show "ftype f = ''Feature''" by (simp add: f' make_feature_def)
  show "map_of (properties f) ''name'' \<noteq> None" by (simp add: f' make_feature_def)
  show "gtype (geometry f) = ''MultiPolygon''" by (simp add: f' make_feature_def)
  show "length (coordinates (geometry f)) = 1" by (simp add: f' make_feature_def)
  from g st pr zm m ne c n have "\<exists>r root zone polygons.
            requests_get w url = Inr r \<and> raise_for_status r = None
            \<and> fromstring w (content r) = Inr root
            \<and> zone \<in> set (findall_descendants (clark conz ''controlledZone'') root)
            \<and> map (polygon_coords (float_of w))
                  (findall_descendants (clark loc ''openlrPolygonCorners'') zone) = map Inr polygons
            \<and> polygons \<noteq> []
            \<and> coordinates (geometry f) = [polygons]
            \<and> properties f = [(''name'', zone_name zone)]" by blast
  with u show "\<exists>url\<in>set xml_urls. \<exists>r root zone polygons.
            requests_get w url = Inr r \<and> raise_for_status r = None
            \<and> fromstring w (content r) = Inr root
            \<and> zone \<in> set (findall_descendants (clark conz ''controlledZone'') root)
            \<and> map (polygon_coords (float_of w))
                  (findall_descendants (clark loc ''openlrPolygonCorners'') zone) = map Inr polygons
            \<and> polygons \<noteq> []
            \<and> coordinates (geometry f) = [polygons]
            \<and> properties f = [(''name'', zone_name zone)]" by blast
next
  assume a: "map (polygon_coords fl) (findall_descendants (clark loc ''openlrPolygonCorners'') z)
         = map Inr rings \<and> rings \<noteq> []"
  then have zp: "zone_polygons fl z = Inr rings" by (simp only: zone_polygons_rings)
  with a have "process_zone fl z fs = Inr (fs @ [make_feature (zone_name z) rings])"
    by (simp add: process_zone_def)
  moreover have "ftype (make_feature (zone_name z) rings) = ''Feature''
           \<and> properties (make_feature (zone_name z) rings) = [(''name'', zone_name z)]
           \<and> gtype (geometry (make_feature (zone_name z) rings)) = ''MultiPolygon''
           \<and> coordinates (geometry (make_feature (zone_name z) rings)) = [rings]"
    by (simp add: make_feature_def)
  ultimately show "\<exists>f. process_zone fl z fs = Inr (fs @ [f])
           \<and> ftype f = ''Feature''
           \<and> properties f = [(''name'', zone_name z)]
           \<and> gtype (geometry f) = ''MultiPolygon''
           \<and> coordinates (geometry f) = [rings]" by blast
qed

lemma sample_zone_rings_map:
  "map (polygon_coords sample_float)
     (findall_descendants (clark loc ''openlrPolygonCorners'') sample_zone) = map Inr [sample_ring]"
  by (simp add: sample_zone_polygons sample_polygon_coords)

theorem emitted_feature_shape_witness:
  "features (fst (process_xml_to_geojson sample_world
      [BASE_URL @ ''a.xml'', BASE_URL @ ''b.xml'', BASE_URL @ ''c.xml''] []))
     = [sample_feature, sample_feature]
   \<and> ftype sample_feature = ''Feature''
   \<and> map_of (properties sample_feature) ''name'' = Some (Some ''Madrid Central'')
   \<and> gtype (geometry sample_feature) = ''MultiPolygon''
   \<and> coordinates (geometry sample_feature) = [[sample_ring]]
   \<and> (\<exists>f. process_zone sample_float sample_zone [] = Inr ([] @ [f])
         \<and> ftype f = ''Feature''
         \<and> properties f = [(''name'', zone_name sample_zone)]
         \<and> gtype (geometry f) = ''MultiPolygon''
         \<and> coordinates (geometry f) = [[sample_ring]])"
proof -
  note t = emitted_feature_shape[of sample_world
      "[BASE_URL @ ''a.xml'', BASE_URL @ ''b.xml'', BASE_URL @ ''c.xml'']" "[]"
      sample_float sample_zone "[sample_ring]" "[]"]
  have ne: "[sample_ring] \<noteq> []" by simp
  have 1: "\<exists>f. process_zone sample_float sample_zone [] = Inr ([] @ [f])
         \<and> ftype f = ''Feature''
         \<and> properties f = [(''name'', zone_name sample_zone)]
         \<and> gtype (geometry f) = ''MultiPolygon''
         \<and> coordinates (geometry f) = [[sample_ring]]"
    using t sample_zone_rings_map ne by blast
  have m: "sample_feature \<in> set (features (fst (process_xml_to_geojson sample_world
      [BASE_URL @ ''a.xml'', BASE_URL @ ''b.xml'', BASE_URL @ ''c.xml''] [])))"
    by (simp add: sample_process)
  have 2: "ftype sample_feature = ''Feature''
      \<and> map_of (properties sample_feature) ''name'' \<noteq> None
      \<and> gtype (geometry sample_feature) = ''MultiPolygon''
      \<and> length (coordinates (geometry sample_feature)) = 1"
    using t m by blast
  from 1 2 show ?thesis
    by (simp add: sample_process) (simp add: sample_feature_def make_feature_def)
qed

subsection \<open>Failures\<close>

lemma zones_loop_append:
  "zones_loop fl (xs @ ys) fs =
     (case zones_loop fl xs fs of
        (fs', None) \<Rightarrow> zones_loop fl ys fs'
      | (fs', Some e) \<Rightarrow> (fs', Some e))"
proof (induction xs arbitrary: fs)
  case Nil
  then show ?case by simp
next
  case (Cons z zs)
  show ?case
  proof (cases "process_zone fl z fs")
    case (Inl e)
    then show ?thesis by simp
  next
    case (Inr gs)
    then show ?thesis using Cons.IH[of gs] by simp
  qed
qed

lemma zones_loop_stops:
  assumes "zones_loop fl before [] = (gs, None)" and "zone_polygons fl zone = Inl e"
  shows "zones_loop fl (before @ [zone] @ after) fs = (fs @ gs, Some e)"
proof -
  from assms(1) have b: "zones_loop fl before fs = (fs @ gs, None)"
    using zones_loop_acc[of fl before fs] by simp
  from assms(2) have z: "process_zone fl zone (fs @ gs) = Inl e"
    by (simp add: process_zone_def)
  show ?thesis by (simp add: zones_loop_append b z)
qed

lemma urls_loop_out:
  "snd (urls_loop w urls (fs, out)) =
     out @ concat (map (\<lambda>url. case snd (try_url w url []) of None \<Rightarrow> [] | Some e \<Rightarrow> [handler url e]) urls)"
proof (induction urls arbitrary: fs out)
  case Nil
  then show ?case by simp
next
  case (Cons url urls)
  obtain gs r where t: "try_url w url [] = (gs, r)" by (cases "try_url w url []")
  then have t': "try_url w url fs = (fs @ gs, r)" using try_url_acc[of w url fs] by simp
  show ?case
  proof (cases r)
    case None
    with t t' Cons.IH[of "fs @ gs" out] show ?thesis by simp
  next
    case (Some e)
    with t t' Cons.IH[of "fs @ gs" "out @ [handler url e]"] show ?thesis by simp
  qed
qed

lemma process_out:
  "snd (process_xml_to_geojson w urls out) =
     out @ Found (length urls) #
       concat (map (\<lambda>url. case snd (try_url w url []) of None \<Rightarrow> [] | Some e \<Rightarrow> [handler url e]) urls)"
proof -
  obtain gs out' where u: "urls_loop w urls ([], out @ [Found (length urls)]) = (gs, out')"
    by (cases "urls_loop w urls ([], out @ [Found (length urls)])")
  with urls_loop_out[of w urls "[]" "out @ [Found (length urls)]"]
  have "out' = (out @ [Found (length urls)]) @
     concat (map (\<lambda>url. case snd (try_url w url []) of None \<Rightarrow> [] | Some e \<Rightarrow> [handler url e]) urls)"
    by simp
  with u show ?thesis by (simp add: process_xml_to_geojson_def)
qed



text \<open>
  C10. For every list of addresses the result of \<open>process_xml_to_geojson\<close> is a
  collection of type \<open>FeatureCollection\<close>; every exception of an address ends in one printed
  line of a handler and the loop goes on; on the empty list the features are empty.
\<close>

theorem always_a_feature_collection:
  "ctype (fst (process_xml_to_geojson w xml_urls out)) = ''FeatureCollection''
   \<and> features (fst (process_xml_to_geojson w xml_urls out))
       = concat (map (\<lambda>url. fst (try_url w url [])) xml_urls)
   \<and> snd (process_xml_to_geojson w xml_urls out)
       = out @ Found (length xml_urls) #
           concat (map (\<lambda>url. case snd (try_url w url []) of
                                 None \<Rightarrow> [] | Some e \<Rightarrow> [handler url e]) xml_urls)
   \<and> process_xml_to_geojson w [] out
       = (\<lparr>ctype = ''FeatureCollection'', features = []\<rparr>, out @ [Found 0])"
  by (simp add: process_ctype process_features process_out)
    (simp add: process_xml_to_geojson_def)

theorem always_a_feature_collection_witness:
  "process_xml_to_geojson sample_world [] []
     = (\<lparr>ctype = ''FeatureCollection'', features = []\<rparr>, [Found 0])
   \<and> ctype (fst (process_xml_to_geojson sample_world
        [BASE_URL @ ''a.xml'', BASE_URL @ ''b.xml'', BASE_URL @ ''c.xml''] [])) = ''FeatureCollection''
   \<and> snd (process_xml_to_geojson sample_world
        [BASE_URL @ ''a.xml'', BASE_URL @ ''b.xml'', BASE_URL @ ''c.xml''] [])
      = [Found 3, ErrorFetching (BASE_URL @ ''b.xml'') HTTPError,
         UnexpectedError (BASE_URL @ ''c.xml'') AttributeError]"
  using always_a_feature_collection[of sample_world "[]" "[]"]
    always_a_feature_collection[of sample_world
      "[BASE_URL @ ''a.xml'', BASE_URL @ ''b.xml'', BASE_URL @ ''c.xml'']" "[]"]
  by (simp add: sample_process)

theorem failed_resource_features_counterexample:
  "try_url sample_world (BASE_URL @ ''c.xml'') [] = ([sample_feature], Some AttributeError)
   \<and> process_xml_to_geojson sample_world [BASE_URL @ ''c.xml''] []
       = (\<lparr>ctype = ''FeatureCollection'', features = [sample_feature]\<rparr>,
          [Found 1, UnexpectedError (BASE_URL @ ''c.xml'') AttributeError])
   \<and> features (fst (process_xml_to_geojson sample_world [BASE_URL @ ''c.xml''] [])) \<noteq> []"
  by (simp add: process_xml_to_geojson_def sample_try_c handler_def)

text \<open>
  C6, as the code has it. An address whose request fails, whose status is an error or
  whose document is malformed leaves the feature list as it was. When an exception is raised
  while a zone is processed, the features of the zones before it stay in the list and nothing
  is added for that zone or the zones after it. (The claim as stated fails: the counterexample
  is a document whose first zone is well formed and whose second zone raises; the address
  contributes one feature.)
\<close>

theorem failed_resource_features:
  "(requests_get w url = Inl e \<longrightarrow> try_url w url fs = (fs, Some e))
   \<and> (requests_get w url = Inr r \<and> raise_for_status r = Some e \<longrightarrow>
        try_url w url fs = (fs, Some e))
   \<and> (requests_get w url = Inr r \<and> raise_for_status r = None
        \<and> fromstring w (content r) = Inl e \<longrightarrow>
        try_url w url fs = (fs, Some e))
   \<and> (requests_get w url = Inr r \<and> raise_for_status r = None
        \<and> fromstring w (content r) = Inr root
        \<and> findall_descendants (clark conz ''controlledZone'') root = before @ [zone] @ after
        \<and> zones_loop (float_of w) before [] = (gs, None)
        \<and> zone_polygons (float_of w) zone = Inl e \<longrightarrow>
        try_url w url fs = (fs @ gs, Some e))"
proof (intro conjI impI)
  assume "requests_get w url = Inl e"
  then show "try_url w url fs = (fs, Some e)" by (rule try_url_get_fails)
next
  assume "requests_get w url = Inr r \<and> raise_for_status r = Some e"
  then show "try_url w url fs = (fs, Some e)" by (simp add: try_url_status_fails)
next
  assume "requests_get w url = Inr r \<and> raise_for_status r = None
        \<and> fromstring w (content r) = Inl e"
  then show "try_url w url fs = (fs, Some e)" by (simp add: try_url_parse_fails)
next
  assume a: "requests_get w url = Inr r \<and> raise_for_status r = None
        \<and> fromstring w (content r) = Inr root
        \<and> findall_descendants (clark conz ''controlledZone'') root = before @ [zone] @ after
        \<and> zones_loop (float_of w) before [] = (gs, None)
        \<and> zone_polygons (float_of w) zone = Inl e"
  then have "try_url w url fs =
       zones_loop (float_of w) (before @ [zone] @ after) fs"
    using try_url_parsed[of w url r root fs] by simp
  also have "\<dots> = (fs @ gs, Some e)"
    using a zones_loop_stops[of "float_of w" before gs zone e after fs] by simp
  finally show "try_url w url fs = (fs @ gs, Some e)" .
qed

theorem failed_resource_features_witness:
  "try_url sample_world (BASE_URL @ ''d.xml'') [sample_feature] = ([sample_feature], Some RequestException)
   \<and> try_url sample_world (BASE_URL @ ''b.xml'') [sample_feature] = ([sample_feature], Some HTTPError)
   \<and> try_url sample_world (BASE_URL @ ''c.xml'') [] = ([sample_feature], Some AttributeError)"
proof -
  have g: "requests_get sample_world (BASE_URL @ ''c.xml'') = Inr (sample_response ''C'')"
    by (simp add: sample_world_def)
  have s: "raise_for_status (sample_response ''C'') = None"
    by (simp add: raise_for_status_def sample_response_def)
  have p: "fromstring sample_world (content (sample_response ''C'')) = Inr sample_root_partial"
    by (simp add: sample_world_def sample_response_def)
  have f: "float_of sample_world = sample_float" by (simp add: sample_world_def)
  have z: "findall_descendants (clark conz ''controlledZone'') sample_root_partial
            = [sample_zone] @ [sample_zone_bad] @ [sample_zone]"
    by (simp add: sample_zones_c)
  have b: "zones_loop (float_of sample_world) [sample_zone] [] = ([sample_feature], None)"
    by (simp add: f sample_zone_feature)
  have e: "zone_polygons (float_of sample_world) sample_zone_bad = Inl AttributeError"
    using sample_zone_bad_raises[of "[]"] by (simp add: f process_zone_def split: sum.splits)
  have gd: "requests_get sample_world (BASE_URL @ ''d.xml'') = Inl RequestException"
    by (simp add: sample_world_def)
  have gb: "requests_get sample_world (BASE_URL @ ''b.xml'')
            = Inr \<lparr>status_code = 404, content = [], body_text = []\<rparr>"
    by (simp add: sample_world_def)
  have sb: "raise_for_status \<lparr>status_code = 404, content = [], body_text = []\<rparr> = Some HTTPError"
    by (simp add: raise_for_status_def)
  have 1: "try_url sample_world (BASE_URL @ ''d.xml'') [sample_feature]
      = ([sample_feature], Some RequestException)"
    using failed_resource_features[of sample_world "BASE_URL @ ''d.xml''" RequestException
        "[sample_feature]"] gd by blast
  have 2: "try_url sample_world (BASE_URL @ ''b.xml'') [sample_feature]
      = ([sample_feature], Some HTTPError)"
    using failed_resource_features[of sample_world "BASE_URL @ ''b.xml''" HTTPError
        "[sample_feature]" "\<lparr>status_code = 404, content = [], body_text = []\<rparr>"] gb sb
    by blast
  have 3: "try_url sample_world (BASE_URL @ ''c.xml'') [] = ([] @ [sample_feature], Some AttributeError)"
    using failed_resource_features[of sample_world "BASE_URL @ ''c.xml''" AttributeError "[]"
        "sample_response ''C''" sample_root_partial "[sample_zone]" sample_zone_bad
        "[sample_zone]" "[sample_feature]"] g s p z b e
    by blast
  from 1 2 3 show ?thesis by simp
qed

theorem empty_ring_zone_counterexample:
  "findall_children (clark loc ''openlrCoordinates'')
       (Element (clark loc ''openlrPolygonCorners'') None []) = []
   \<and> findall_descendants (clark loc ''openlrPolygonCorners'') sample_zone_no_coords
       = [Element (clark loc ''openlrPolygonCorners'') None []]
   \<and> process_zone sample_float sample_zone_no_coords []
       = Inr [make_feature (Some ''Empty'') [[]]]
   \<and> coordinates (geometry (make_feature (Some ''Empty'') [[]] :: int feature)) = [[[]]]"
  by (simp add: sample_zone_no_coords_feature findall_children_def make_feature_def)
    (simp add: findall_descendants_def sample_zone_no_coords_def sample_name_def sample_tag_defs)

lemma zone_polygons_length:
  "zone_polygons fl zone = Inr polygons \<Longrightarrow>
   length polygons = length (findall_descendants (clark loc ''openlrPolygonCorners'') zone)"
proof -
  assume "zone_polygons fl zone = Inr polygons"
  then have "map (polygon_coords fl) (findall_descendants (clark loc ''openlrPolygonCorners'') zone)
      = map Inr polygons" by (simp only: zone_polygons_rings)
  then have "length (map (polygon_coords fl) (findall_descendants (clark loc ''openlrPolygonCorners'') zone))
      = length (map (Inr :: _ \<Rightarrow> exn + _) polygons)" by simp
  then show ?thesis by simp
qed

text \<open>
  C2, as the code has it. A polygon element with no coordinate element gives the empty
  ring. A zone whose polygon elements are read without an exception has one ring for each
  polygon element, the empty ones included, and appends a feature exactly when it has at
  least one polygon element. Every feature of the collection comes from a zone with at
  least one polygon element. (The claim as stated fails: the counterexample is a zone whose
  only polygon element has no coordinates; it yields a feature whose only ring is empty.)
\<close>

theorem feature_iff_polygon_element:
  "(findall_children (clark loc ''openlrCoordinates'') polygon = [] \<longrightarrow>
      polygon_coords fl polygon = Inr [])
   \<and> (zone_polygons fl zone = Inr polygons \<longrightarrow>
        length polygons = length (findall_descendants (clark loc ''openlrPolygonCorners'') zone)
        \<and> process_zone fl zone fs =
            Inr (if findall_descendants (clark loc ''openlrPolygonCorners'') zone = [] then fs
                 else fs @ [make_feature (zone_name zone) polygons]))
   \<and> (\<forall>f\<in>set (features (fst (process_xml_to_geojson w xml_urls out))).
        \<exists>zone polygons. zone_polygons (float_of w) zone = Inr polygons
          \<and> findall_descendants (clark loc ''openlrPolygonCorners'') zone \<noteq> []
          \<and> f = make_feature (zone_name zone) polygons)"
proof (intro conjI impI ballI)
  assume "findall_children (clark loc ''openlrCoordinates'') polygon = []"
  then show "polygon_coords fl polygon = Inr []"
    by (simp add: polygon_coords_def close_ring_def)
next
  assume z: "zone_polygons fl zone = Inr polygons"
  from zone_polygons_length[OF z]
  show l: "length polygons = length (findall_descendants (clark loc ''openlrPolygonCorners'') zone)" .
  then have "(polygons = []) = (findall_descendants (clark loc ''openlrPolygonCorners'') zone = [])"
    by (metis length_0_conv)
  then show "process_zone fl zone fs =
            Inr (if findall_descendants (clark loc ''openlrPolygonCorners'') zone = [] then fs
                 else fs @ [make_feature (zone_name zone) polygons])"
    by (simp add: process_zone_def z)
next
  fix f
  assume f: "f \<in> set (features (fst (process_xml_to_geojson w xml_urls out)))"
  from process_origin[OF f] obtain zone ps where
    z: "zone_polygons (float_of w) zone = Inr ps" and ne: "ps \<noteq> []"
    and f': "f = make_feature (zone_name zone) ps"
    by blast
  from zone_polygons_length[OF z] ne
  have "findall_descendants (clark loc ''openlrPolygonCorners'') zone \<noteq> []" by auto
  with z f' show "\<exists>zone polygons. zone_polygons (float_of w) zone = Inr polygons
          \<and> findall_descendants (clark loc ''openlrPolygonCorners'') zone \<noteq> []
          \<and> f = make_feature (zone_name zone) polygons" by blast
qed

lemma sample_zone_no_coords_polygons:
  "zone_polygons sample_float sample_zone_no_coords = Inr [[]]"
proof -
  have p: "findall_descendants (clark loc ''openlrPolygonCorners'') sample_zone_no_coords
        = [Element (clark loc ''openlrPolygonCorners'') None []]"
    by (simp add: findall_descendants_def sample_zone_no_coords_def sample_name_def sample_tag_defs)
  have r: "polygon_coords sample_float (Element (clark loc ''openlrPolygonCorners'') None []) = Inr []"
    by (simp add: polygon_coords_def findall_children_def close_ring_def)
  show ?thesis by (simp add: zone_polygons_def p r)
qed

theorem feature_iff_polygon_element_witness:
  "polygon_coords sample_float (Element (clark loc ''openlrPolygonCorners'') None []) = Inr []
   \<and> process_zone sample_float sample_zone_no_coords []
       = Inr [make_feature (zone_name sample_zone_no_coords) [[]]]
   \<and> features (fst (process_xml_to_geojson sample_world [BASE_URL @ ''a.xml''] []))
       = [sample_feature]"
  using feature_iff_polygon_element[of "Element (clark loc ''openlrPolygonCorners'') None []"
      sample_float sample_zone_no_coords "[[]]" "[]" sample_world "[BASE_URL @ ''a.xml'']" "[]"]
  by (simp add: sample_zone_no_coords_polygons process_features sample_try_a findall_children_def)
    (simp add: findall_descendants_def sample_zone_no_coords_def sample_name_def sample_tag_defs)

subsection \<open>Names\<close>

lemma first_match_in_set: "first_match es = Some e \<Longrightarrow> e \<in> set es"
  by (cases es) (auto simp: first_match_def)

lemma find_name_value_tag:
  assumes "find_name_value zone = Some el"
  shows "tag_of el = clark com ''value''"
proof -
  from first_match_in_set[OF assms[unfolded find_name_value_def]]
  obtain v where "el \<in> set (findall_children (clark com ''value'') v)" by auto
  then show ?thesis by (simp add: findall_children_def)
qed

lemma find_name_value_first:
  assumes "findall_descendants (clark conz ''name'') zone = n # ns"
    and "findall_children (clark com ''values'') n = v # vs"
    and "findall_children (clark com ''value'') v = el # els"
  shows "find_name_value zone = Some el"
  by (simp add: find_name_value_def assms first_match_def)

theorem zone_name_counterexample:
  "find_name_value sample_zone_no_text = Some (Element (clark com ''value'') None [])
   \<and> zone_name sample_zone_no_text = None
   \<and> process_zone sample_float sample_zone_no_text []
       = Inr [make_feature None [sample_ring]]
   \<and> map_of (properties (make_feature None [sample_ring] :: int feature)) ''name'' = Some None"
  by (simp add: sample_zone_no_text_name sample_zone_no_text_feature make_feature_def)
    (simp add: find_name_value_def findall_descendants_def findall_children_def
      first_match_def sample_zone_no_text_def sample_name_def sample_polygon_def sample_coord_def
      sample_tag_defs)

text \<open>
  C9, as the code has it. The name of a zone is the placeholder when no element matches
  the path of the name value, and the text of the first matching element when that element
  has a text; the feature of the zone carries that name. (The claim as stated fails: the
  counterexample is a zone whose first name value element has no text; its name is
  \<open>None\<close>, not a string.)
\<close>

theorem zone_name_first_value:
  "(find_name_value zone = None \<longrightarrow> zone_name zone = Some ''Unknown Zone'')
   \<and> (find_name_value zone = Some el \<and> text_of el = Some s \<longrightarrow>
        tag_of el = clark com ''value'' \<and> zone_name zone = Some s)
   \<and> (findall_descendants (clark conz ''name'') zone = n # ns
        \<and> findall_children (clark com ''values'') n = v # vs
        \<and> findall_children (clark com ''value'') v = el' # els \<longrightarrow>
        find_name_value zone = Some el')
   \<and> (zone_polygons fl zone = Inr polygons \<and> polygons \<noteq> [] \<longrightarrow>
        (\<exists>f. process_zone fl zone fs = Inr (fs @ [f])
           \<and> map_of (properties f) ''name'' = Some (zone_name zone)))"
proof (intro conjI impI)
  assume "find_name_value zone = None"
  then show "zone_name zone = Some ''Unknown Zone''" by (simp add: zone_name_def)
next
  assume a: "find_name_value zone = Some el \<and> text_of el = Some s"
  then show "tag_of el = clark com ''value''" using find_name_value_tag by blast
  from a show "zone_name zone = Some s" by (simp add: zone_name_def)
next
  assume "findall_descendants (clark conz ''name'') zone = n # ns
        \<and> findall_children (clark com ''values'') n = v # vs
        \<and> findall_children (clark com ''value'') v = el' # els"
  then show "find_name_value zone = Some el'" using find_name_value_first by blast
next
  assume "zone_polygons fl zone = Inr polygons \<and> polygons \<noteq> []"
  then have "process_zone fl zone fs = Inr (fs @ [make_feature (zone_name zone) polygons])
      \<and> map_of (properties (make_feature (zone_name zone) polygons)) ''name'' = Some (zone_name zone)"
    by (simp add: process_zone_def make_feature_def)
  then show "\<exists>f. process_zone fl zone fs = Inr (fs @ [f])
           \<and> map_of (properties f) ''name'' = Some (zone_name zone)" by blast
qed

lemma sample_zone_name_path:
  "findall_descendants (clark conz ''name'') sample_zone = [sample_name (Some ''Madrid Central'')]"
  "findall_children (clark com ''values'') (sample_name (Some ''Madrid Central''))
     = [Element (clark com ''values'') None [Element (clark com ''value'') (Some ''Madrid Central'') []]]"
  "findall_children (clark com ''value'')
     (Element (clark com ''values'') None [Element (clark com ''value'') (Some ''Madrid Central'') []])
     = [Element (clark com ''value'') (Some ''Madrid Central'') []]"
  by (simp_all add: findall_descendants_def findall_children_def sample_zone_def sample_name_def
      sample_polygon_def sample_coord_def sample_tag_defs)

lemma sample_zone_ring: "zone_polygons sample_float sample_zone = Inr [sample_ring]"
  by (simp add: zone_polygons_def sample_zone_polygons sample_polygon_coords)

theorem zone_name_first_value_witness:
  "zone_name (Element (clark conz ''controlledZone'') None []) = Some ''Unknown Zone''
   \<and> find_name_value sample_zone = Some (Element (clark com ''value'') (Some ''Madrid Central'') [])
   \<and> zone_name sample_zone = Some ''Madrid Central''
   \<and> (\<exists>f. process_zone sample_float sample_zone [] = Inr ([] @ [f])
         \<and> map_of (properties f) ''name'' = Some (zone_name sample_zone))"
proof -
  have none: "find_name_value (Element (clark conz ''controlledZone'') None []) = None"
    by (simp add: find_name_value_def findall_descendants_def first_match_def)
  have 1: "zone_name (Element (clark conz ''controlledZone'') None []) = Some ''Unknown Zone''"
    using zone_name_first_value[of "Element (clark conz ''controlledZone'') None []"] none
    by blast
  have 2: "find_name_value sample_zone = Some (Element (clark com ''value'') (Some ''Madrid Central'') [])"
    using zone_name_first_value[of sample_zone _ _ "sample_name (Some ''Madrid Central'')" "[]"
        "Element (clark com ''values'') None [Element (clark com ''value'') (Some ''Madrid Central'') []]"
        "[]" "Element (clark com ''value'') (Some ''Madrid Central'') []" "[]"]
      sample_zone_name_path
    by blast
  have t: "text_of (Element (clark com ''value'') (Some ''Madrid Central'') []) = Some ''Madrid Central''"
    by simp
  have 3: "zone_name sample_zone = Some ''Madrid Central''"
    using zone_name_first_value[of sample_zone
        "Element (clark com ''value'') (Some ''Madrid Central'') []" "''Madrid Central''"] 2 t
    by blast
  have ne: "[sample_ring] \<noteq> []" by simp
  have 4: "\<exists>f. process_zone sample_float sample_zone [] = Inr ([] @ [f])
         \<and> map_of (properties f) ''name'' = Some (zone_name sample_zone)"
    using zone_name_first_value[of sample_zone _ _ _ _ _ _ _ _ sample_float "[sample_ring]" "[]"]
      sample_zone_ring ne
    by blast
  from 1 2 3 4 show ?thesis by blast
qed

subsection \<open>The index\<close>

lemma endswith_iff: "endswith s suf \<longleftrightarrow> (\<exists>p. s = p @ suf)"
proof
  assume "endswith s suf"
  then have "s = take (length s - length suf) s @ suf"
    by (metis append_take_drop_id endswith_def)
  then show "\<exists>p. s = p @ suf" by blast
next
  assume "\<exists>p. s = p @ suf"
  then obtain p where "s = p @ suf" by blast
  then show "endswith s suf" by (simp add: endswith_def)
qed

lemma endswith_nonempty: "endswith href ''.xml'' \<Longrightarrow> href \<noteq> []"
  by (auto simp: endswith_def)

lemma links_loop_eq:
  "links_loop links xml_urls =
     xml_urls @ map (\<lambda>href. BASE_URL @ href)
       (filter (\<lambda>href. endswith href ''.xml'')
          (List.map_filter (\<lambda>link. map_of (attrs_of link) ''href'') links))"
proof (induction links arbitrary: xml_urls)
  case Nil
  then show ?case by (simp add: List.map_filter_simps)
next
  case (Cons link rest)
  show ?case
  proof (cases "map_of (attrs_of link) ''href''")
    case None
    then show ?thesis by (simp add: Cons.IH List.map_filter_simps)
  next
    case (Some href)
    show ?thesis
    proof (cases "endswith href ''.xml''")
      case True
      with Some endswith_nonempty[OF True] show ?thesis
        by (simp add: Cons.IH List.map_filter_simps)
    next
      case False
      with Some show ?thesis by (simp add: Cons.IH List.map_filter_simps)
    qed
  qed
qed

lemma find_all_name: "link \<in> set (find_all t h) \<Longrightarrow> name_of link = t"
proof (induction t h rule: find_all.induct)
  case (1 t n as cs)
  then show ?case by (auto split: if_splits)
next
  case (2 t s)
  then show ?case by simp
qed

lemma fetch_ok:
  assumes "requests_get w BASE_URL = Inr r" and "raise_for_status r = None"
  shows "fetch_xml_urls w out =
     (Inr (links_loop (concat (map (find_all ''a'') (html_parser w (body_text r)))) []), out)"
  using assms by (simp add: fetch_xml_urls_def)

text \<open>
  C4. When the index is retrieved, the result of \<open>fetch_xml_urls\<close> is the list of the
  \<open>href\<close> attributes of the anchors that end in \<open>.xml\<close>, each with the base address
  in front, in document order. Anchors without \<open>href\<close> and targets with another suffix
  are left out, and only anchors are looked at.
\<close>

theorem xml_links_listed:
  "(requests_get w BASE_URL = Inr r \<and> raise_for_status r = None \<longrightarrow>
      fst (fetch_xml_urls w out) =
        Inr (map (\<lambda>href. BASE_URL @ href)
               (filter (\<lambda>href. \<exists>p. href = p @ ''.xml'')
                  (List.map_filter (\<lambda>link. map_of (attrs_of link) ''href'')
                     (concat (map (find_all ''a'') (html_parser w (body_text r))))))))
   \<and> (\<forall>link\<in>set (concat (map (find_all ''a'') doc)). name_of link = ''a'')"
proof (intro conjI impI ballI)
  assume "requests_get w BASE_URL = Inr r \<and> raise_for_status r = None"
  then have "fetch_xml_urls w out =
     (Inr (links_loop (concat (map (find_all ''a'') (html_parser w (body_text r)))) []), out)"
    using fetch_ok by blast
  then show "fst (fetch_xml_urls w out) =
        Inr (map (\<lambda>href. BASE_URL @ href)
               (filter (\<lambda>href. \<exists>p. href = p @ ''.xml'')
                  (List.map_filter (\<lambda>link. map_of (attrs_of link) ''href'')
                     (concat (map (find_all ''a'') (html_parser w (body_text r)))))))"
    by (simp add: links_loop_eq endswith_iff)
next
  fix link
  assume "link \<in> set (concat (map (find_all ''a'') doc))"
  then obtain h where "link \<in> set (find_all ''a'' h)" by auto
  then show "name_of link = ''a''" by (rule find_all_name)
qed

lemma sample_anchors:
  "concat (map (find_all ''a'') sample_index) =
     [Tag ''a'' [(''href'', ''../'')] [NavigableString ''Parent Directory''],
      Tag ''a'' [(''href'', ''a.xml'')] [NavigableString ''a.xml''],
      Tag ''a'' [(''name'', ''top'')] [],
      Tag ''a'' [(''href'', ''b.xml'')] [NavigableString ''b.xml''],
      Tag ''a'' [(''href'', ''notes.txt'')] [],
      Tag ''a'' [(''href'', ''c.xml'')] []]"
  by (simp add: sample_index_def)

lemma sample_index_response:
  "requests_get sample_world BASE_URL = Inr (sample_response ''index'')"
  "raise_for_status (sample_response ''index'') = None"
  "html_parser sample_world (body_text (sample_response ''index'')) = sample_index"
  by (simp_all add: sample_world_def sample_response_def raise_for_status_def)

lemma sample_suffixes:
  "(\<exists>p. ''../'' = p @ ''.xml'') = False"
  "(\<exists>p. ''a.xml'' = p @ ''.xml'') = True"
  "(\<exists>p. ''b.xml'' = p @ ''.xml'') = True"
  "(\<exists>p. ''notes.txt'' = p @ ''.xml'') = False"
  "(\<exists>p. ''c.xml'' = p @ ''.xml'') = True"
  unfolding endswith_iff[symmetric] by (simp_all add: endswith_def)

theorem xml_links_listed_witness:
  "fst (fetch_xml_urls sample_world [])
     = Inr [BASE_URL @ ''a.xml'', BASE_URL @ ''b.xml'', BASE_URL @ ''c.xml'']"
  using xml_links_listed[of sample_world "sample_response ''index''" "[]" "[]"]
  by (simp add: sample_index_response sample_anchors List.map_filter_simps sample_suffixes)

subsection \<open>The output file\<close>

lemma output_not_globbed: "\<not> glob_match (OUTPUT_DIR @ ''/'' @ GEOJSON_FILE)"
  by (simp add: glob_match_def OUTPUT_DIR_def GEOJSON_FILE_def endswith_def)

lemma os_remove_frame:
  "os_remove f fs = Inr fs' \<Longrightarrow> p \<noteq> f \<Longrightarrow> map_of fs' p = map_of fs p"
  by (auto simp: os_remove_def delete_conv split: option.splits node.splits)

lemma remove_loop_frame:
  "p \<notin> set files \<Longrightarrow> map_of (fst (remove_loop files fs)) p = map_of fs p"
proof (induction files arbitrary: fs)
  case Nil
  then show ?case by simp
next
  case (Cons f files)
  show ?case
  proof (cases "os_remove f fs")
    case (Inl e)
    then show ?thesis by simp
  next
    case (Inr fs')
    from Cons.prems have "p \<noteq> f" and "p \<notin> set files" by auto
    with Cons.IH[of fs'] os_remove_frame[OF Inr] Inr show ?thesis by simp
  qed
qed

lemma clean_old_files_fs:
  "fst (clean_old_files fs out) = fst (remove_loop (glob_xml fs) fs)"
  by (simp add: clean_old_files_def split: prod.splits option.splits)

lemma clean_old_files_frame:
  "map_of (fst (clean_old_files fs out)) (OUTPUT_DIR @ ''/'' @ GEOJSON_FILE)
     = map_of fs (OUTPUT_DIR @ ''/'' @ GEOJSON_FILE)"
proof -
  have "OUTPUT_DIR @ ''/'' @ GEOJSON_FILE \<notin> set (glob_xml fs)"
    using output_not_globbed by (simp add: glob_xml_def)
  then show ?thesis by (simp add: clean_old_files_fs remove_loop_frame)
qed

lemma clean_old_files_out:
  "Saved p \<notin> set out \<Longrightarrow> Saved p \<notin> set (fst (snd (clean_old_files fs out)))"
  by (simp add: clean_old_files_def split: prod.splits option.splits)

lemma fetch_fst_out: "fst (fetch_xml_urls w out) = fst (fetch_xml_urls w [])"
  by (simp add: fetch_xml_urls_def except_RequestException_def split: sum.splits option.splits)

lemma fetch_out:
  "Saved p \<notin> set out \<Longrightarrow> Saved p \<notin> set (snd (fetch_xml_urls w out))"
  by (simp add: fetch_xml_urls_def except_RequestException_def split: sum.splits option.splits)

lemma process_not_Saved:
  assumes "Saved p \<notin> set out"
  shows "Saved p \<notin> set (snd (process_xml_to_geojson w urls out))"
proof -
  have "Saved p \<notin> set (concat (map (\<lambda>url. case snd (try_url w url []) of
                                 None \<Rightarrow> [] | Some e \<Rightarrow> [handler url e]) urls))"
    by (auto simp: handler_def split: option.splits if_splits)
  with assms show ?thesis by (simp add: process_out)
qed

lemma process_features_out:
  "features (fst (process_xml_to_geojson w urls out)) = features (fst (process_xml_to_geojson w urls []))"
  by (simp add: process_features)

lemma main_without_features:
  assumes H: "\<forall>xml_urls. fst (fetch_xml_urls w []) = Inr xml_urls \<longrightarrow>
                features (fst (process_xml_to_geojson w xml_urls [])) = []"
  shows "final_fs (main w fs) = fst (clean_old_files fs [Starting])
         \<and> Saved p \<notin> set (printed (main w fs))"
proof -
  obtain fs1 out1 r1 where c: "clean_old_files fs [Starting] = (fs1, out1, r1)"
    by (cases "clean_old_files fs [Starting]") auto
  have o1: "Saved p \<notin> set out1"
    using clean_old_files_out[of p "[Starting]" fs] c by simp
  show ?thesis
  proof (cases r1)
    case (Some e)
    with c o1 show ?thesis by (simp add: main_def)
  next
    case None
    note r1 = this
    obtain x out2 where f: "fetch_xml_urls w out1 = (x, out2)"
      by (cases "fetch_xml_urls w out1")
    have o2: "Saved p \<notin> set out2" using fetch_out[OF o1, of w] f by simp
    show ?thesis
    proof (cases x)
      case (Inl e)
      with c r1 f o2 show ?thesis by (simp add: main_def)
    next
      case (Inr xml_urls)
      note x = this
      show ?thesis
      proof (cases "xml_urls = []")
        case True
        with c r1 f x o2 show ?thesis by (simp add: main_def)
      next
        case False
        obtain geojson_data out3 where pr: "process_xml_to_geojson w xml_urls out2 = (geojson_data, out3)"
          by (cases "process_xml_to_geojson w xml_urls out2")
        have "fst (fetch_xml_urls w []) = Inr xml_urls"
          using fetch_fst_out[of w out1] f x by simp
        with H have "features (fst (process_xml_to_geojson w xml_urls [])) = []" by blast
        then have nf: "features geojson_data = []"
          using process_features_out[of w xml_urls out2] pr by simp
        have o3: "Saved p \<notin> set out3" using process_not_Saved[OF o2, of w xml_urls] pr by simp
        from c r1 f x False pr nf o3 show ?thesis by (simp add: main_def)
      qed
    qed
  qed
qed

text \<open>
  C7. In a run that extracts no feature (no address listed, or no feature from the
  addresses listed), the file system at the end is the one the cleaning step left: nothing is
  written or created, the output file is as it was before the run, and no line reports a
  saved file. A line reporting a saved file implies that a feature was extracted.
\<close>

theorem no_features_no_write:
  "((\<forall>xml_urls. fst (fetch_xml_urls w []) = Inr xml_urls \<longrightarrow>
        features (fst (process_xml_to_geojson w xml_urls [])) = []) \<longrightarrow>
      final_fs (main w fs) = fst (clean_old_files fs [Starting])
      \<and> map_of (final_fs (main w fs)) (OUTPUT_DIR @ ''/'' @ GEOJSON_FILE)
          = map_of fs (OUTPUT_DIR @ ''/'' @ GEOJSON_FILE)
      \<and> Saved p \<notin> set (printed (main w fs)))
   \<and> (Saved p \<in> set (printed (main w fs)) \<longrightarrow>
        (\<exists>xml_urls. fst (fetch_xml_urls w []) = Inr xml_urls
           \<and> features (fst (process_xml_to_geojson w xml_urls [])) \<noteq> []))"
proof (intro conjI impI)
  assume H: "\<forall>xml_urls. fst (fetch_xml_urls w []) = Inr xml_urls \<longrightarrow>
        features (fst (process_xml_to_geojson w xml_urls [])) = []"
  from main_without_features[OF H, of fs p]
  show 1: "final_fs (main w fs) = fst (clean_old_files fs [Starting])"
    and "Saved p \<notin> set (printed (main w fs))" by simp_all
  show "map_of (final_fs (main w fs)) (OUTPUT_DIR @ ''/'' @ GEOJSON_FILE)
          = map_of fs (OUTPUT_DIR @ ''/'' @ GEOJSON_FILE)"
    unfolding 1 by (rule clean_old_files_frame)
next
  assume s: "Saved p \<in> set (printed (main w fs))"
  show "\<exists>xml_urls. fst (fetch_xml_urls w []) = Inr xml_urls
           \<and> features (fst (process_xml_to_geojson w xml_urls [])) \<noteq> []"
  proof (rule ccontr)
    assume "\<not> (\<exists>xml_urls. fst (fetch_xml_urls w []) = Inr xml_urls
           \<and> features (fst (process_xml_to_geojson w xml_urls [])) \<noteq> [])"
    then have "\<forall>xml_urls. fst (fetch_xml_urls w []) = Inr xml_urls \<longrightarrow>
        features (fst (process_xml_to_geojson w xml_urls [])) = []" by blast
    from main_without_features[OF this, of fs p] s show False by simp
  qed
qed

lemma sample_down_fetch:
  "fst (fetch_xml_urls sample_world_down [])
     = Inr [BASE_URL @ ''a.xml'', BASE_URL @ ''b.xml'', BASE_URL @ ''c.xml'']"
proof -
  have g: "requests_get sample_world_down BASE_URL = Inr (sample_response ''index'')"
    by (simp add: sample_world_down_def)
  have h: "html_parser sample_world_down (body_text (sample_response ''index'')) = sample_index"
    by (simp add: sample_world_down_def sample_world_def sample_response_def)
  show ?thesis
    unfolding fetch_ok[OF g sample_index_response(2)] h
    by (simp add: sample_anchors endswith_def)
qed

lemma sample_down_try:
  "url \<noteq> BASE_URL \<Longrightarrow> try_url sample_world_down url fs = (fs, Some RequestException)"
  by (simp add: try_url_get_fails sample_world_down_def)

lemma sample_down_features:
  "features (fst (process_xml_to_geojson sample_world_down
      [BASE_URL @ ''a.xml'', BASE_URL @ ''b.xml'', BASE_URL @ ''c.xml''] [])) = []"
  by (simp add: process_features sample_down_try)

lemma sample_clean:
  "fst (clean_old_files sample_fs [Starting])
     = [(''data'', Dir), (''data/low_emission_zones.geojson'', File ''previous'')]"
  by (simp add: clean_old_files_def glob_xml_def sample_fs_def glob_match_def OUTPUT_DIR_def
      endswith_def os_remove_def AList.delete_eq)

theorem no_features_no_write_witness:
  "final_fs (main sample_world_down sample_fs)
     = [(''data'', Dir), (''data/low_emission_zones.geojson'', File ''previous'')]
   \<and> map_of (final_fs (main sample_world_down sample_fs)) (OUTPUT_DIR @ ''/'' @ GEOJSON_FILE)
     = Some (File ''previous'')
   \<and> Saved (OUTPUT_DIR @ ''/'' @ GEOJSON_FILE) \<notin> set (printed (main sample_world_down sample_fs))"
proof -
  have H: "\<forall>xml_urls. fst (fetch_xml_urls sample_world_down []) = Inr xml_urls \<longrightarrow>
        features (fst (process_xml_to_geojson sample_world_down xml_urls [])) = []"
    by (simp add: sample_down_fetch sample_down_features)
  from no_features_no_write[of sample_world_down sample_fs "OUTPUT_DIR @ ''/'' @ GEOJSON_FILE"] H
  have "final_fs (main sample_world_down sample_fs) = fst (clean_old_files sample_fs [Starting])
      \<and> map_of (final_fs (main sample_world_down sample_fs)) (OUTPUT_DIR @ ''/'' @ GEOJSON_FILE)
          = map_of sample_fs (OUTPUT_DIR @ ''/'' @ GEOJSON_FILE)
      \<and> Saved (OUTPUT_DIR @ ''/'' @ GEOJSON_FILE) \<notin> set (printed (main sample_world_down sample_fs))"
    by blast
  then show ?thesis by (simp add: sample_clean) (simp add: OUTPUT_DIR_def GEOJSON_FILE_def)
qed

end
